theory Spec2Isabelle
  imports Complex_Main
begin

section \<open>Data model of \<open>utilities/overhead.py\<close>\<close>

text \<open>
  The four keys of the dictionary \<open>RUNWAY_28_THRESHOLD\<close>. The attribute
  \<open>_active_runways\<close> only ever holds lists built from these four string literals, so the
  lookup \<open>RUNWAY_28_THRESHOLD[runway]\<close> never misses.
\<close>

datatype runway = R28L | R28R | R10L | R10R

text \<open>The two strings returned by \<open>determine_operation\<close>; \<open>None\<close> is the option.\<close>

datatype operation = Landing | Takeoff

text \<open>
  The exceptions the code distinguishes, all of them subclasses of \<open>Exception\<close>: the inner
  handler catches \<open>KeyError\<close> and \<open>AttributeError\<close>, the outer one every \<open>Exception\<close>.
\<close>

datatype exn = KeyError | AttributeError | OtherException

text \<open>
  A Python float: a finite number, an infinity or a NaN. The comparisons \<open><\<close> and \<open><=\<close> of
  floats are exact; every comparison with a NaN is false.
\<close>

datatype pyfloat = Fin real | PosInf | NegInf | NaN

fun flt :: "pyfloat \<Rightarrow> pyfloat \<Rightarrow> bool" where
  "flt (Fin x) (Fin y) = (x < y)"
| "flt (Fin x) PosInf = True"
| "flt (Fin x) NegInf = False"
| "flt (Fin x) NaN = False"
| "flt PosInf y = False"
| "flt NegInf (Fin y) = True"
| "flt NegInf PosInf = True"
| "flt NegInf NegInf = False"
| "flt NegInf NaN = False"
| "flt NaN y = False"

fun fle :: "pyfloat \<Rightarrow> pyfloat \<Rightarrow> bool" where
  "fle (Fin x) (Fin y) = (x \<le> y)"
| "fle (Fin x) PosInf = True"
| "fle (Fin x) NegInf = False"
| "fle (Fin x) NaN = False"
| "fle PosInf (Fin y) = False"
| "fle PosInf PosInf = True"
| "fle PosInf NegInf = False"
| "fle PosInf NaN = False"
| "fle NegInf (Fin y) = True"
| "fle NegInf PosInf = True"
| "fle NegInf NegInf = True"
| "fle NegInf NaN = False"
| "fle NaN y = False"

text \<open>
  The float arithmetic the interpreter runs on, as far as \<open>determine_runway\<close> uses it: the
  float a decimal literal denotes, \<open>x - y\<close>, \<open>x ** 2\<close>, \<open>x + y\<close> and \<open>math.sqrt(x)\<close>. The
  results of \<open>**\<close> come from the \<open>pow\<close> of the platform's C library, which need not be
  correctly rounded, so the arithmetic is a parameter of the model and every property is
  proved for all of them. \<open>None\<close> is an exception raised by the operation:
  \<open>OverflowError\<close> by \<open>**\<close>, \<open>ValueError\<close> by \<open>math.sqrt\<close>.
\<close>

record arith =
  literal :: "real \<Rightarrow> pyfloat"
  fsub :: "pyfloat \<Rightarrow> pyfloat \<Rightarrow> pyfloat"
  fpow2 :: "pyfloat \<Rightarrow> pyfloat option"
  fadd :: "pyfloat \<Rightarrow> pyfloat \<Rightarrow> pyfloat"
  fsqrt :: "pyfloat \<Rightarrow> pyfloat option"

text \<open>
  A flight object of the provider. \<open>hasattr(flight, 'x')\<close> is \<open>x flight \<noteq> None\<close>; reading an
  absent attribute raises \<open>AttributeError\<close>. Altitude, vertical speed and heading are
  Python integers; latitude and longitude are floats.
\<close>

record flight =
  callsign :: "string option"
  latitude :: "pyfloat option"
  longitude :: "pyfloat option"
  altitude :: "int option"
  vertical_speed :: "int option"
  heading :: "int option"

text \<open>
  What \<open>get_flight_details\<close> returns: parsed JSON. Only a dictionary has a \<open>get\<close> method;
  calling \<open>.get\<close> on anything else raises \<open>AttributeError\<close>.
\<close>

datatype json =
    JNull
  | JBool bool
  | JNum int
  | JStr string
  | JList "json list"
  | JObj "(string \<times> json) list"

text \<open>The dictionary \<open>flight_data\<close> appended to the result of a cycle.\<close>

record flight_data =
  fd_callsign :: string
  fd_operation :: operation
  fd_runway :: runway
  fd_aircraft :: json
  fd_airline :: json
  fd_altitude :: int
  fd_vertical_speed :: int
  fd_heading :: int

text \<open>The attributes of \<open>SFORunwayTracker\<close> set in \<open>__init__\<close> (the API client and the lock apart).\<close>

record tracker =
  self_data :: "flight_data list"
  self_new_data :: bool
  self_processing :: bool
  self_active_runways :: "runway list"

definition init :: tracker where
  "init = \<lparr> self_data = [], self_new_data = False, self_processing = False,
            self_active_runways = [R28L, R28R] \<rparr>"

subsection \<open>Constants\<close>

text \<open>
  The decimal literals of the source as the numbers they are written as; where the code
  computes with one, the model takes its float, \<open>literal A\<close>.
\<close>

fun RUNWAY_28_THRESHOLD :: "runway \<Rightarrow> real \<times> real" where
  "RUNWAY_28_THRESHOLD R28L = (37.6161, -122.3580)"
| "RUNWAY_28_THRESHOLD R28R = (37.6188, -122.3530)"
| "RUNWAY_28_THRESHOLD R10L = (37.6213, -122.3790)"
| "RUNWAY_28_THRESHOLD R10R = (37.6191, -122.3795)"

definition MAX_FLIGHT_LOOKUP :: nat where "MAX_FLIGHT_LOOKUP = 10"
definition LANDING_ALTITUDE_THRESHOLD :: int where "LANDING_ALTITUDE_THRESHOLD = 1000"
definition TAKEOFF_ALTITUDE_THRESHOLD :: int where "TAKEOFF_ALTITUDE_THRESHOLD = 3000"
definition RUNWAY_PROXIMITY_THRESHOLD :: real where "RUNWAY_PROXIMITY_THRESHOLD = 0.01"
definition RETRIES :: nat where "RETRIES = 3"
definition RATE_LIMIT_DELAY :: nat where "RATE_LIMIT_DELAY = 1"

section \<open>The classification primitives\<close>

subsection \<open>\<open>determine_runway_config\<close>\<close>

text \<open>The \<open>for\<close> loop over the flights, with the two counters as accumulator.\<close>

fun count_operations :: "flight list \<Rightarrow> nat \<times> nat \<Rightarrow> nat \<times> nat" where
  "count_operations [] (west_operations, east_operations) =
     (west_operations, east_operations)"
| "count_operations (f # fs) (west_operations, east_operations) =
     (case heading f of
        None \<Rightarrow> count_operations fs (west_operations, east_operations)
      | Some h \<Rightarrow>
          if 260 \<le> h \<and> h \<le> 300
          then count_operations fs (west_operations + 1, east_operations)
          else if 80 \<le> h \<and> h \<le> 120
          then count_operations fs (west_operations, east_operations + 1)
          else count_operations fs (west_operations, east_operations))"

definition determine_runway_config :: "tracker \<Rightarrow> flight list \<Rightarrow> tracker" where
  "determine_runway_config self flights =
     (case count_operations flights (0, 0) of
        (west_operations, east_operations) \<Rightarrow>
          if east_operations > west_operations
          then self\<lparr>self_active_runways := [R10L, R10R]\<rparr>
          else self\<lparr>self_active_runways := [R28L, R28R]\<rparr>)"

subsection \<open>\<open>determine_operation\<close>\<close>

definition determine_operation :: "flight \<Rightarrow> operation option" where
  "determine_operation f =
     (case altitude f of
        None \<Rightarrow> None
      | Some a \<Rightarrow>
         (case vertical_speed f of
            None \<Rightarrow> None
          | Some v \<Rightarrow>
              if a \<le> LANDING_ALTITUDE_THRESHOLD \<and> v < 0 then Some Landing
              else if a \<le> TAKEOFF_ALTITUDE_THRESHOLD \<and> v > 0 then Some Takeoff
              else None))"

subsection \<open>\<open>determine_runway\<close>\<close>

text \<open>
  The expression \<open>math.sqrt((lat - t['lat'])**2 + (lon - t['lon'])**2)\<close>, evaluated from
  left to right; an exception of the arithmetic is neither a \<open>KeyError\<close> nor an
  \<open>AttributeError\<close>.
\<close>

definition distance :: "arith \<Rightarrow> pyfloat \<Rightarrow> pyfloat \<Rightarrow> runway \<Rightarrow> exn + pyfloat" where
  "distance A lat lon rw =
     (case RUNWAY_28_THRESHOLD rw of
        (tlat, tlon) \<Rightarrow>
          (case fpow2 A (fsub A lat (literal A tlat)) of
             None \<Rightarrow> Inl OtherException
           | Some dlat2 \<Rightarrow>
              (case fpow2 A (fsub A lon (literal A tlon)) of
                 None \<Rightarrow> Inl OtherException
               | Some dlon2 \<Rightarrow>
                  (case fsqrt A (fadd A dlat2 dlon2) of
                     None \<Rightarrow> Inl OtherException
                   | Some d \<Rightarrow> Inr d))))"

text \<open>
  The loop over \<open>self._active_runways\<close>. The accumulator is the pair
  \<open>(closest_runway, min_distance)\<close>; an exception of the arithmetic leaves the loop.
\<close>

fun closest_loop ::
  "arith \<Rightarrow> pyfloat \<Rightarrow> pyfloat \<Rightarrow> runway list \<Rightarrow> runway option \<times> pyfloat
     \<Rightarrow> exn + runway option \<times> pyfloat"
where
  "closest_loop A lat lon [] (closest_runway, min_distance) =
     Inr (closest_runway, min_distance)"
| "closest_loop A lat lon (rw # rws) (closest_runway, min_distance) =
     (case distance A lat lon rw of
        Inl e \<Rightarrow> Inl e
      | Inr d \<Rightarrow>
          if flt d min_distance
          then closest_loop A lat lon rws (Some rw, d)
          else closest_loop A lat lon rws (closest_runway, min_distance))"

definition determine_runway :: "arith \<Rightarrow> tracker \<Rightarrow> flight \<Rightarrow> exn + runway option" where
  "determine_runway A self f =
     (case latitude f of
        None \<Rightarrow> Inr None
      | Some lat \<Rightarrow>
         (case longitude f of
            None \<Rightarrow> Inr None
          | Some lon \<Rightarrow>
             (case closest_loop A lat lon (self_active_runways self) (None, PosInf) of
                Inl e \<Rightarrow> Inl e
              | Inr (closest_runway, min_distance) \<Rightarrow>
                  if fle min_distance (literal A RUNWAY_PROXIMITY_THRESHOLD)
                  then Inr closest_runway
                  else Inr None)))"

section \<open>The collection cycle\<close>

text \<open>
  The provider, as far as the cycle sees it. \<open>get_flights\<close> is the outcome of
  \<open>get_bounds\<close> followed by \<open>get_flights\<close>: the list of flights, or the exception raised.
  The provider may answer each detail lookup differently, so \<open>get_flight_details\<close> takes the
  number of lookups made before this one in the cycle.
\<close>

record api =
  get_flights :: "exn + flight list"
  get_flight_details :: "nat \<Rightarrow> flight \<Rightarrow> exn + json"

text \<open>What a cycle does to the outside: a detail lookup for a flight, or a sleep.\<close>

datatype event = Lookup flight | Sleep nat

fun lookups :: "event list \<Rightarrow> flight list" where
  "lookups [] = []"
| "lookups (Lookup f # es) = f # lookups es"
| "lookups (Sleep d # es) = lookups es"

fun sleeps :: "event list \<Rightarrow> nat list" where
  "sleeps [] = []"
| "sleeps (Lookup f # es) = sleeps es"
| "sleeps (Sleep d # es) = d # sleeps es"

text \<open>The local list \<open>data\<close> of \<open>_grab_data\<close>, and the events so far.\<close>

record cycle =
  cy_data :: "flight_data list"
  cy_trace :: "event list"

text \<open>\<open>d.get(k, default)\<close>: a dictionary answers, anything else has no \<open>get\<close>.\<close>

definition py_get :: "json \<Rightarrow> string \<Rightarrow> json \<Rightarrow> exn + json" where
  "py_get d k dflt =
     (case d of
        JObj kvs \<Rightarrow> Inr (case map_of kvs k of None \<Rightarrow> dflt | Some v \<Rightarrow> v)
      | _ \<Rightarrow> Inl AttributeError)"

text \<open>\<open>details.get("aircraft", {}).get("model", {}).get("code", "Unknown")\<close>\<close>

definition aircraft_code :: "json \<Rightarrow> exn + json" where
  "aircraft_code details =
     (case py_get details ''aircraft'' (JObj []) of
        Inl e \<Rightarrow> Inl e
      | Inr a \<Rightarrow>
         (case py_get a ''model'' (JObj []) of
            Inl e \<Rightarrow> Inl e
          | Inr m \<Rightarrow> py_get m ''code'' (JStr ''Unknown'')))"

text \<open>\<open>details.get("airline", {}).get("name", "Unknown")\<close>\<close>

definition airline_name :: "json \<Rightarrow> exn + json" where
  "airline_name details =
     (case py_get details ''airline'' (JObj []) of
        Inl e \<Rightarrow> Inl e
      | Inr a \<Rightarrow> py_get a ''name'' (JStr ''Unknown''))"

text \<open>
  The dictionary display that builds \<open>flight_data\<close>, its entries evaluated in order; reading
  an attribute the flight does not have raises \<open>AttributeError\<close>.
\<close>

definition build_flight_data ::
  "flight \<Rightarrow> json \<Rightarrow> operation \<Rightarrow> runway \<Rightarrow> exn + flight_data"
where
  "build_flight_data f details opn rw =
     (case callsign f of
        None \<Rightarrow> Inl AttributeError
      | Some cs \<Rightarrow>
     (case aircraft_code details of
        Inl e \<Rightarrow> Inl e
      | Inr ac \<Rightarrow>
     (case airline_name details of
        Inl e \<Rightarrow> Inl e
      | Inr al \<Rightarrow>
     (case altitude f of
        None \<Rightarrow> Inl AttributeError
      | Some a \<Rightarrow>
     (case vertical_speed f of
        None \<Rightarrow> Inl AttributeError
      | Some v \<Rightarrow>
     (case heading f of
        None \<Rightarrow> Inl AttributeError
      | Some h \<Rightarrow>
          Inr \<lparr> fd_callsign = cs, fd_operation = opn, fd_runway = rw, fd_aircraft = ac,
                fd_airline = al, fd_altitude = a, fd_vertical_speed = v,
                fd_heading = h \<rparr>))))))"

text \<open>
  The body of the inner \<open>try\<close>, given what \<open>get_flight_details\<close> did: an exception, no
  record (\<open>operation and runway\<close> is false), or the record to append. Operation and runway
  are both computed before either is looked at.
\<close>

definition attempt ::
  "arith \<Rightarrow> tracker \<Rightarrow> flight \<Rightarrow> exn + json \<Rightarrow> exn + flight_data option"
where
  "attempt A self f response =
     (case response of
        Inl e \<Rightarrow> Inl e
      | Inr details \<Rightarrow>
         (let operation = determine_operation f
          in case determine_runway A self f of
               Inl e \<Rightarrow> Inl e
             | Inr runway \<Rightarrow>
                (case operation of
                   None \<Rightarrow> Inr None
                 | Some opn \<Rightarrow>
                    (case runway of
                       None \<Rightarrow> Inr None
                     | Some rw \<Rightarrow>
                        (case build_flight_data f details opn rw of
                           Inl e \<Rightarrow> Inl e
                         | Inr fd \<Rightarrow> Inr (Some fd))))))"

text \<open>
  The loop \<open>while retries:\<close>. The handler \<open>except (KeyError, AttributeError)\<close> decrements
  \<open>retries\<close> and sleeps; any other exception leaves the loop and the \<open>for\<close> loop.
\<close>

fun retry_loop :: "arith \<Rightarrow> tracker \<Rightarrow> api \<Rightarrow> flight \<Rightarrow> nat \<Rightarrow> cycle \<Rightarrow> exn + cycle" where
  "retry_loop A self a f 0 st = Inr st"
| "retry_loop A self a f (Suc retries) st =
     (let response = get_flight_details a (length (lookups (cy_trace st))) f;
          st1 = st\<lparr>cy_trace := cy_trace st @ [Lookup f]\<rparr>
      in case attempt A self f response of
           Inr None \<Rightarrow> Inr st1
         | Inr (Some fd) \<Rightarrow> Inr (st1\<lparr>cy_data := cy_data st1 @ [fd]\<rparr>)
         | Inl e \<Rightarrow>
             if e = KeyError \<or> e = AttributeError
             then retry_loop A self a f retries
                    (st1\<lparr>cy_trace := cy_trace st1 @ [Sleep RATE_LIMIT_DELAY]\<rparr>)
             else Inl e)"

text \<open>The loop \<open>for flight in flights[:MAX_FLIGHT_LOOKUP]\<close>, over the slice.\<close>

fun flights_loop :: "arith \<Rightarrow> tracker \<Rightarrow> api \<Rightarrow> flight list \<Rightarrow> cycle \<Rightarrow> exn + cycle" where
  "flights_loop A self a [] st = Inr st"
| "flights_loop A self a (f # fs) st =
     (case retry_loop A self a f RETRIES st of
        Inl e \<Rightarrow> Inl e
      | Inr st' \<Rightarrow> flights_loop A self a fs st')"

text \<open>
  The outer \<open>try\<close> up to the last locked block: the tracker as the body left it (only
  \<open>determine_runway_config\<close> writes to it), and the exception raised or the cycle's result.
\<close>

definition collect :: "arith \<Rightarrow> api \<Rightarrow> tracker \<Rightarrow> tracker \<times> (exn + cycle)" where
  "collect A a self =
     (case get_flights a of
        Inl e \<Rightarrow> (self, Inl e)
      | Inr flights \<Rightarrow>
          let self' = determine_runway_config self flights
          in (self', flights_loop A self' a (take MAX_FLIGHT_LOOKUP flights)
                       \<lparr> cy_data = [], cy_trace = [] \<rparr>))"

section \<open>The tracker\<close>

text \<open>The three blocks run under \<open>self._lock\<close> by \<open>_grab_data\<close>, each one step.\<close>

definition begin_cycle :: "tracker \<Rightarrow> tracker" where
  "begin_cycle self = self\<lparr>self_new_data := False, self_processing := True\<rparr>"

definition complete_cycle :: "flight_data list \<Rightarrow> tracker \<Rightarrow> tracker" where
  "complete_cycle d self =
     self\<lparr>self_new_data := True, self_processing := False, self_data := d\<rparr>"

definition fail_cycle :: "tracker \<Rightarrow> tracker" where
  "fail_cycle self = self\<lparr>self_new_data := False, self_processing := False\<rparr>"

text \<open>\<open>except Exception\<close>: the classes the outer handler catches.\<close>

fun is_Exception :: "exn \<Rightarrow> bool" where
  "is_Exception KeyError = True"
| "is_Exception AttributeError = True"
| "is_Exception OtherException = True"

text \<open>\<open>_grab_data\<close>: \<open>Inl\<close> would be an exception leaving the method.\<close>

definition grab_data :: "arith \<Rightarrow> api \<Rightarrow> tracker \<Rightarrow> exn + tracker" where
  "grab_data A a self =
     (case collect A a (begin_cycle self) of
        (self', Inr st) \<Rightarrow> Inr (complete_cycle (cy_data st) self')
      | (self', Inl e) \<Rightarrow> if is_Exception e then Inr (fail_cycle self') else Inl e)"

text \<open>The properties \<open>new_data\<close>, \<open>processing\<close>, \<open>data\<close> and \<open>active_runways\<close>.\<close>

definition new_data :: "tracker \<Rightarrow> bool" where
  "new_data self = self_new_data self"

definition processing :: "tracker \<Rightarrow> bool" where
  "processing self = self_processing self"

definition data :: "tracker \<Rightarrow> flight_data list \<times> tracker" where
  "data self = (self_data self, self\<lparr>self_new_data := False\<rparr>)"

definition active_runways :: "tracker \<Rightarrow> runway list" where
  "active_runways self = self_active_runways self"

text \<open>
  The states a tracker can be in: the initial one, and any state reached by one of the
  steps that write to it, in any order (the steps of several cycles may interleave).
\<close>

inductive reachable :: "tracker \<Rightarrow> bool" where
  r_init: "reachable init"
| r_begin: "reachable s \<Longrightarrow> reachable (begin_cycle s)"
| r_config: "reachable s \<Longrightarrow> reachable (determine_runway_config s flights)"
| r_complete: "reachable s \<Longrightarrow> reachable (complete_cycle d s)"
| r_fail: "reachable s \<Longrightarrow> reachable (fail_cycle s)"
| r_read: "reachable s \<Longrightarrow> reachable (snd (data s))"

section \<open>The specification's vocabulary\<close>

text \<open>
  The two heading bands of the specification and the pair it selects from the band counts,
  written after the specification's words, to be compared with \<open>determine_runway_config\<close>.
\<close>

definition in_west_band :: "flight \<Rightarrow> bool" where
  "in_west_band f = (case heading f of None \<Rightarrow> False | Some h \<Rightarrow> 260 \<le> h \<and> h \<le> 300)"

definition in_east_band :: "flight \<Rightarrow> bool" where
  "in_east_band f = (case heading f of None \<Rightarrow> False | Some h \<Rightarrow> 80 \<le> h \<and> h \<le> 120)"

definition infer_runway_configuration :: "flight list \<Rightarrow> runway list" where
  "infer_runway_configuration flights =
     (if length (filter in_east_band flights) > length (filter in_west_band flights)
      then [R10L, R10R] else [R28L, R28R])"

text \<open>
  The nearest runway of a pair, after the specification: given the two distances the code
  computed and its threshold, the runway of the smaller distance when that distance is at
  most the threshold, the first of the pair on equal distances. A distance that is not below
  infinity (an infinity or a NaN) is no candidate.
\<close>

definition nearest_runway :: "pyfloat \<Rightarrow> runway \<times> pyfloat \<Rightarrow> runway \<times> pyfloat \<Rightarrow> runway option" where
  "nearest_runway threshold c1 c2 =
     (case (c1, c2) of
        ((r1, d1), (r2, d2)) \<Rightarrow>
          if flt d1 PosInf
          then (if flt d2 d1
                then (if fle d2 threshold then Some r2 else None)
                else (if fle d1 threshold then Some r1 else None))
          else (if flt d2 PosInf \<and> fle d2 threshold then Some r2 else None))"

text \<open>
  An attempt that raised \<open>KeyError\<close> or \<open>AttributeError\<close>; the outcome of the attempt number
  \<open>i\<close> (from 0) of a retry loop started in cycle state \<open>st\<close>; and the events of \<open>k\<close> failed
  attempts, each a lookup followed by a sleep of \<open>RATE_LIMIT_DELAY\<close>.
\<close>

definition field_absence :: "exn + 'a \<Rightarrow> bool" where
  "field_absence r = (r = Inl KeyError \<or> r = Inl AttributeError)"

definition nth_attempt ::
  "arith \<Rightarrow> tracker \<Rightarrow> api \<Rightarrow> flight \<Rightarrow> cycle \<Rightarrow> nat \<Rightarrow> exn + flight_data option"
where
  "nth_attempt A self a f st i =
     attempt A self f (get_flight_details a (length (lookups (cy_trace st)) + i) f)"

definition failed_attempts :: "flight \<Rightarrow> nat \<Rightarrow> event list" where
  "failed_attempts f k = concat (replicate k [Lookup f, Sleep RATE_LIMIT_DELAY])"

text \<open>A record whose callsign, altitude, vertical speed and heading are those of the flight.\<close>

definition from_flight :: "flight \<Rightarrow> flight_data \<Rightarrow> bool" where
  "from_flight f fd \<longleftrightarrow>
     callsign f = Some (fd_callsign fd) \<and> altitude f = Some (fd_altitude fd) \<and>
     vertical_speed f = Some (fd_vertical_speed fd) \<and> heading f = Some (fd_heading fd)"

section \<open>An arithmetic: binary64 with correct rounding\<close>

text \<open>
  The arithmetic of IEEE 754 double precision in which every operation returns the float
  nearest to the exact result, ties to the even mantissa. It is the arithmetic of the
  examples below.

  \<open>round_even\<close> rounds to the nearest integer, ties to even. \<open>ulp_exp x\<close> is the exponent of
  the last mantissa bit of the floats around \<open>x\<close>: 52 below the exponent of \<open>x\<close>, and -1074
  for the subnormal numbers. \<open>rnd\<close> rounds to 53 bits, and \<open>to_float\<close> overflows to an
  infinity from the middle between the largest float and \<open>2 ^ 1024\<close> on.
\<close>

definition round_even :: "real \<Rightarrow> int" where
  "round_even y =
     (if y - of_int \<lfloor>y\<rfloor> < 1 / 2 then \<lfloor>y\<rfloor>
      else if 1 / 2 < y - of_int \<lfloor>y\<rfloor> then \<lfloor>y\<rfloor> + 1
      else if even \<lfloor>y\<rfloor> then \<lfloor>y\<rfloor> else \<lfloor>y\<rfloor> + 1)"

definition ulp_exp :: "real \<Rightarrow> int" where
  "ulp_exp x = max (\<lfloor>log 2 \<bar>x\<bar>\<rfloor> - 52) (- 1074)"

definition rnd :: "real \<Rightarrow> real" where
  "rnd x = (if x = 0 then 0 else of_int (round_even (x / 2 powi ulp_exp x)) * 2 powi ulp_exp x)"

definition overflow_threshold :: real where
  "overflow_threshold = 2 ^ 1024 - 2 ^ 970"

definition to_float :: "real \<Rightarrow> pyfloat" where
  "to_float x =
     (if overflow_threshold \<le> x then PosInf
      else if x \<le> - overflow_threshold then NegInf
      else Fin (rnd x))"

fun b64_sub :: "pyfloat \<Rightarrow> pyfloat \<Rightarrow> pyfloat" where
  "b64_sub (Fin x) (Fin y) = to_float (x - y)"
| "b64_sub (Fin x) PosInf = NegInf"
| "b64_sub (Fin x) NegInf = PosInf"
| "b64_sub PosInf (Fin y) = PosInf"
| "b64_sub PosInf NegInf = PosInf"
| "b64_sub PosInf PosInf = NaN"
| "b64_sub NegInf (Fin y) = NegInf"
| "b64_sub NegInf PosInf = NegInf"
| "b64_sub NegInf NegInf = NaN"
| "b64_sub NaN y = NaN"
| "b64_sub (Fin x) NaN = NaN"
| "b64_sub PosInf NaN = NaN"
| "b64_sub NegInf NaN = NaN"

fun b64_add :: "pyfloat \<Rightarrow> pyfloat \<Rightarrow> pyfloat" where
  "b64_add (Fin x) (Fin y) = to_float (x + y)"
| "b64_add (Fin x) PosInf = PosInf"
| "b64_add (Fin x) NegInf = NegInf"
| "b64_add PosInf (Fin y) = PosInf"
| "b64_add PosInf PosInf = PosInf"
| "b64_add PosInf NegInf = NaN"
| "b64_add NegInf (Fin y) = NegInf"
| "b64_add NegInf NegInf = NegInf"
| "b64_add NegInf PosInf = NaN"
| "b64_add NaN y = NaN"
| "b64_add (Fin x) NaN = NaN"
| "b64_add PosInf NaN = NaN"
| "b64_add NegInf NaN = NaN"

text \<open>\<open>x ** 2\<close> raises \<open>OverflowError\<close> where the square of a finite float overflows.\<close>

fun b64_pow2 :: "pyfloat \<Rightarrow> pyfloat option" where
  "b64_pow2 (Fin x) = (if overflow_threshold \<le> x * x then None else Some (Fin (rnd (x * x))))"
| "b64_pow2 PosInf = Some PosInf"
| "b64_pow2 NegInf = Some PosInf"
| "b64_pow2 NaN = Some NaN"

text \<open>\<open>math.sqrt\<close> raises \<open>ValueError\<close> below zero.\<close>

fun b64_sqrt :: "pyfloat \<Rightarrow> pyfloat option" where
  "b64_sqrt (Fin x) = (if x < 0 then None else Some (Fin (rnd (sqrt x))))"
| "b64_sqrt PosInf = Some PosInf"
| "b64_sqrt NegInf = None"
| "b64_sqrt NaN = Some NaN"

definition binary64 :: arith where
  "binary64 = \<lparr> literal = to_float, fsub = b64_sub, fpow2 = b64_pow2, fadd = b64_add,
                fsqrt = b64_sqrt \<rparr>"

text \<open>The distance that \<open>binary64\<close> computes for finite coordinates that do not overflow.\<close>

definition b64_distance :: "real \<Rightarrow> real \<Rightarrow> real \<Rightarrow> real \<Rightarrow> real" where
  "b64_distance x y tlat tlon =
     rnd (sqrt (rnd (rnd (rnd (x - rnd tlat) * rnd (x - rnd tlat))
                   + rnd (rnd (y - rnd tlon) * rnd (y - rnd tlon)))))"

subsection \<open>Example inputs\<close>

text \<open>
  Two floats, \<open>37.61273243632179\<close> and \<open>-122.36741591816411\<close> as Python prints them: a
  position whose distance to the threshold of 28L is just above 0.01.
\<close>

definition edge_lat :: real where "edge_lat = 5293521493268906 / 2 ^ 47"

definition edge_lon :: real where "edge_lon = - 8610841386427100 / 2 ^ 46"

text \<open>
  The first scenario of the specification: a flight at 500 ft, descending, heading 280, exactly
  at the threshold of 28L, the answer of a detail lookup that has every entry, and the record
  built from the two. Then the same flight without a callsign, a flight without a position,
  one heading east, the flight at the position above, a flight at latitude \<open>2.0 ** 700\<close>, and
  five providers.
\<close>

definition landing_28L :: flight where
  "landing_28L = \<lparr> callsign = Some ''UAL1'', latitude = Some (literal binary64 37.6161),
     longitude = Some (literal binary64 (- 122.3580)), altitude = Some 500,
     vertical_speed = Some (- 10), heading = Some 280 \<rparr>"

definition full_details :: json where
  "full_details = JObj [(''aircraft'', JObj [(''model'', JObj [(''code'', JStr ''B738'')])]),
                         (''airline'', JObj [(''name'', JStr ''United'')])]"

definition landing_28L_data :: flight_data where
  "landing_28L_data = \<lparr> fd_callsign = ''UAL1'', fd_operation = Landing, fd_runway = R28L,
     fd_aircraft = JStr ''B738'', fd_airline = JStr ''United'', fd_altitude = 500,
     fd_vertical_speed = - 10, fd_heading = 280 \<rparr>"

definition no_callsign :: flight where
  "no_callsign = landing_28L\<lparr>callsign := None\<rparr>"

definition no_position :: flight where
  "no_position = \<lparr> callsign = Some ''N1'', latitude = None, longitude = None,
     altitude = Some 500, vertical_speed = Some (- 10), heading = None \<rparr>"

definition eastbound :: flight where
  "eastbound = no_position\<lparr>callsign := Some ''N2'', heading := Some 100\<rparr>"

definition eleven_flights :: "flight list" where
  "eleven_flights = [no_position, no_position, no_position, no_position, no_position,
     no_position, no_position, no_position, no_position, no_position, eastbound]"

definition edge_flight :: flight where
  "edge_flight = landing_28L\<lparr>latitude := Some (Fin edge_lat), longitude := Some (Fin edge_lon)\<rparr>"

definition far_flight :: flight where
  "far_flight = landing_28L\<lparr>latitude := Some (Fin (2 ^ 700))\<rparr>"

definition one_landing :: api where
  "one_landing = \<lparr> get_flights = Inr [landing_28L],
                   get_flight_details = (\<lambda>n f. Inr full_details) \<rparr>"

definition no_flights :: api where
  "no_flights = \<lparr> get_flights = Inr [], get_flight_details = (\<lambda>n f. Inr full_details) \<rparr>"

definition flaky :: api where
  "flaky = \<lparr> get_flights = Inr [landing_28L],
             get_flight_details = (\<lambda>n f. if n = 0 then Inl KeyError else Inr full_details) \<rparr>"

definition eleven :: api where
  "eleven = \<lparr> get_flights = Inr eleven_flights,
              get_flight_details = (\<lambda>n f. Inr full_details) \<rparr>"

definition unreachable_provider :: api where
  "unreachable_provider = \<lparr> get_flights = Inl OtherException,
                            get_flight_details = (\<lambda>n f. Inl OtherException) \<rparr>"

section \<open>Properties of the binary64 arithmetic\<close>

text \<open>
  Rounding keeps the sign, at most doubles and, from 1 on, at most halves the magnitude;
  small numbers do not overflow.
\<close>

lemma round_even_nonneg: "0 \<le> y \<Longrightarrow> 0 \<le> round_even y"
  by (auto simp: round_even_def)

lemma round_even_near: "\<bar>of_int (round_even y) - y\<bar> \<le> 1 / 2"
  unfolding round_even_def by (auto simp: abs_le_iff)

lemma round_even_abs: "\<bar>of_int (round_even y) :: real\<bar> \<le> 2 * \<bar>y\<bar>"
proof (cases "\<bar>y\<bar> < 1 / 2")
  case True
  have "round_even y = 0"
  proof (cases "0 \<le> y")
    case True
    with \<open>\<bar>y\<bar> < 1 / 2\<close> have "\<lfloor>y\<rfloor> = 0" by (simp add: floor_eq_iff)
    with True \<open>\<bar>y\<bar> < 1 / 2\<close> show ?thesis by (simp add: round_even_def)
  next
    case False
    with \<open>\<bar>y\<bar> < 1 / 2\<close> have "\<lfloor>y\<rfloor> = - 1" by (simp add: floor_eq_iff)
    with False \<open>\<bar>y\<bar> < 1 / 2\<close> show ?thesis by (simp add: round_even_def)
  qed
  then show ?thesis by simp
next
  case False
  then show ?thesis using round_even_near[of y] by linarith
qed

lemma round_even_eq: "\<bar>y - of_int n\<bar> < 1 / 2 \<Longrightarrow> round_even y = n"
proof -
  assume a: "\<bar>y - of_int n\<bar> < 1 / 2"
  show ?thesis
  proof (cases "of_int n \<le> y")
    case True
    with a have "\<lfloor>y\<rfloor> = n" by (simp add: floor_eq_iff abs_less_iff)
    with a True show ?thesis by (simp add: round_even_def abs_less_iff)
  next
    case False
    with a have "\<lfloor>y\<rfloor> = n - 1" by (simp add: floor_eq_iff abs_less_iff)
    with a False show ?thesis by (simp add: round_even_def abs_less_iff)
  qed
qed

lemma rnd_0: "rnd 0 = 0"
  by (simp add: rnd_def)

lemma rnd_nonneg: "0 \<le> x \<Longrightarrow> 0 \<le> rnd x"
  by (auto simp: rnd_def intro!: mult_nonneg_nonneg round_even_nonneg divide_nonneg_pos)

lemma rnd_abs_le: "\<bar>rnd x\<bar> \<le> 2 * \<bar>x\<bar>"
proof (cases "x = 0")
  case True
  then show ?thesis by (simp add: rnd_def)
next
  case False
  let ?p = "(2::real) powi ulp_exp x"
  have p: "0 < ?p" by simp
  have "\<bar>rnd x\<bar> = \<bar>of_int (round_even (x / ?p))\<bar> * ?p"
    using False p by (simp add: rnd_def abs_mult)
  also have "\<dots> \<le> (2 * \<bar>x / ?p\<bar>) * ?p"
    using round_even_abs[of "x / ?p"] p by (intro mult_right_mono) auto
  also have "\<dots> = 2 * \<bar>x\<bar>" using p by (simp add: abs_divide)
  finally show ?thesis .
qed

lemma rnd_abs_ge:
  assumes "1 \<le> \<bar>x\<bar>"
  shows "\<bar>x\<bar> / 2 \<le> \<bar>rnd x\<bar>"
proof -
  let ?L = "\<lfloor>log 2 \<bar>x\<bar>\<rfloor>"
  let ?p = "(2::real) powi ulp_exp x"
  have x: "0 < \<bar>x\<bar>" "x \<noteq> 0" using assms by auto
  have "0 \<le> log 2 \<bar>x\<bar>" using assms by simp
  then have L0: "0 \<le> ?L" by simp
  then have u: "ulp_exp x \<le> ?L" by (simp add: ulp_exp_def)
  have "?p \<le> 2 powi ?L" using u by (intro power_int_increasing) simp_all
  also have "\<dots> = 2 powr (of_int ?L)" by (simp add: powr_real_of_int')
  also have "\<dots> \<le> 2 powr (log 2 \<bar>x\<bar>)" by (intro powr_mono) simp_all
  also have "\<dots> = \<bar>x\<bar>" using x by simp
  finally have p: "?p \<le> \<bar>x\<bar>" .
  have p0: "0 < ?p" by simp
  have r: "rnd x = of_int (round_even (x / ?p)) * ?p" using x by (simp add: rnd_def)
  have "\<bar>rnd x - x\<bar> = \<bar>of_int (round_even (x / ?p)) - x / ?p\<bar> * ?p"
  proof -
    have "rnd x - x = (of_int (round_even (x / ?p)) - x / ?p) * ?p"
      using p0 by (simp add: r field_simps)
    then show ?thesis using p0 by (simp add: abs_mult)
  qed
  also have "\<dots> \<le> (1 / 2) * ?p"
    using round_even_near[of "x / ?p"] p0 by (intro mult_right_mono) simp_all
  finally have "\<bar>rnd x - x\<bar> \<le> \<bar>x\<bar> / 2" using p by simp
  then show ?thesis by linarith
qed

lemma to_float_Fin: "\<bar>x\<bar> \<le> 10 ^ 9 \<Longrightarrow> to_float x = Fin (rnd x)"
proof -
  have "(10::real) ^ 9 < overflow_threshold"
    by (simp add: overflow_threshold_def)
  then show "\<bar>x\<bar> \<le> 10 ^ 9 \<Longrightarrow> to_float x = Fin (rnd x)"
    by (auto simp: to_float_def)
qed

lemma b64_pow2_Fin: "\<bar>x\<bar> \<le> 10 ^ 4 \<Longrightarrow> b64_pow2 (Fin x) = Some (Fin (rnd (x * x)))"
proof -
  assume a: "\<bar>x\<bar> \<le> 10 ^ 4"
  have "x * x = \<bar>x\<bar> * \<bar>x\<bar>" by simp
  also have "\<dots> \<le> 10 ^ 4 * 10 ^ 4" using a by (intro mult_mono) auto
  finally have "x * x \<le> 10 ^ 8" by simp
  moreover have "(10::real) ^ 8 < overflow_threshold" by (simp add: overflow_threshold_def)
  ultimately show ?thesis by simp
qed

text \<open>
  The value of \<open>rnd\<close> at a given number, from its mantissa: \<open>m\<close> is the number of binary
  places of the floats around \<open>x\<close>, and \<open>n\<close> the integer nearest to \<open>x * 2 ^ m\<close>; for a square
  root, \<open>n\<close> is recognised by squaring.
\<close>

lemma ulp_exp_scaled:
  assumes "2 ^ 52 \<le> \<bar>x * 2 ^ m\<bar>" and "\<bar>x * 2 ^ m\<bar> < 2 ^ 53" and "m \<le> 1074"
  shows "ulp_exp x = - int m"
proof -
  have pos: "0 < \<bar>x\<bar>" using assms(1) by (auto simp: abs_mult)
  have m: "\<bar>x * 2 ^ m\<bar> = \<bar>x\<bar> * 2 powr (real m)" by (simp add: abs_mult powr_realpow)
  have lo: "2 powr (real_of_int (52 - int m)) \<le> \<bar>x\<bar>"
  proof -
    have "2 powr (real_of_int (52 - int m)) * 2 powr (real m) = (2::real) powr 52"
      by (simp add: powr_add[symmetric])
    also have "\<dots> = 2 ^ 52" by (simp add: powr_numeral[symmetric] del: powr_numeral)
    also have "\<dots> \<le> \<bar>x\<bar> * 2 powr (real m)" using assms(1) m by simp
    finally show ?thesis by simp
  qed
  have hi: "\<bar>x\<bar> < 2 powr (real_of_int (52 - int m + 1))"
  proof -
    have "\<bar>x\<bar> * 2 powr (real m) < 2 ^ 53" using assms(2) m by simp
    also have "\<dots> = (2::real) powr 53" by (simp add: powr_numeral[symmetric] del: powr_numeral)
    also have "\<dots> = 2 powr (real_of_int (52 - int m + 1)) * 2 powr (real m)"
      by (simp add: powr_add[symmetric])
    finally show ?thesis by simp
  qed
  have "\<lfloor>log 2 \<bar>x\<bar>\<rfloor> = 52 - int m"
    using pos lo hi by (subst floor_log_eq_powr_iff) auto
  with assms(3) show ?thesis by (simp add: ulp_exp_def)
qed

lemma rnd_scaled:
  assumes "2 ^ 52 \<le> \<bar>x * 2 ^ m\<bar>" and "\<bar>x * 2 ^ m\<bar> < 2 ^ 53" and "m \<le> 1074"
    and "\<bar>x * 2 ^ m - of_int n\<bar> < 1 / 2"
  shows "rnd x = of_int n / 2 ^ m"
proof -
  have nz: "x \<noteq> 0" using assms(1) by auto
  have u: "ulp_exp x = - int m" using assms(1-3) by (rule ulp_exp_scaled)
  have p: "(2::real) powi (- int m) = 1 / 2 ^ m"
    by (simp add: power_int_minus field_simps)
  have "round_even (x * 2 ^ m) = n" using assms(4) by (rule round_even_eq)
  with nz u p show ?thesis by (simp add: rnd_def)
qed

lemma rnd_sqrt_scaled:
  assumes "(of_int n - 1 / 2)\<^sup>2 < s * 4 ^ m" and "s * 4 ^ m < (of_int n + 1 / 2)\<^sup>2"
    and "2 ^ 52 < n" and "n < 2 ^ 53" and "m \<le> 1074"
  shows "rnd (sqrt s) = of_int n / 2 ^ m"
proof -
  let ?y = "sqrt s * 2 ^ m"
  have s: "0 \<le> s"
  proof (rule ccontr)
    assume "\<not> 0 \<le> s"
    then have "s * 4 ^ m < 0" by (simp add: mult_less_0_iff)
    with assms(1) show False by (smt (verit) zero_le_power2)
  qed
  have y0: "0 \<le> ?y" using s by simp
  have "(2 ^ m)\<^sup>2 = ((2::real) * 2) ^ m"
    unfolding power2_eq_square power_mult_distrib ..
  then have "(4::real) ^ m = (2 ^ m)\<^sup>2" by simp
  then have y2: "?y\<^sup>2 = s * 4 ^ m" using s by (simp add: power_mult_distrib)
  have "2 ^ 52 + 1 \<le> n" "n \<le> 2 ^ 53 - 1" using assms(3,4) by simp_all
  then have "real_of_int (2 ^ 52 + 1) \<le> of_int n" "real_of_int n \<le> of_int (2 ^ 53 - 1)"
    by (simp_all only: of_int_le_iff)
  then have n: "4503599627370497 \<le> real_of_int n" "real_of_int n \<le> 9007199254740991"
    by simp_all
  have lo: "of_int n - 1 / 2 < ?y"
  proof (rule power2_less_imp_less)
    show "(of_int n - 1 / 2)\<^sup>2 < ?y\<^sup>2" using assms(1) y2 by simp
    show "0 \<le> ?y" by (rule y0)
  qed
  have hi: "?y < of_int n + 1 / 2"
  proof (rule power2_less_imp_less)
    show "?y\<^sup>2 < (of_int n + 1 / 2)\<^sup>2" using assms(2) y2 by simp
    show "0 \<le> real_of_int n + 1 / 2" using n by linarith
  qed
  show ?thesis
  proof (rule rnd_scaled)
    have "4503599627370496 \<le> \<bar>?y\<bar>" using lo n y0 by linarith
    then show "2 ^ 52 \<le> \<bar>?y\<bar>" by simp
    have "\<bar>?y\<bar> < 9007199254740992" using hi n y0 by linarith
    then show "\<bar>?y\<bar> < 2 ^ 53" by simp
    show "m \<le> 1074" by (rule assms(5))
    show "\<bar>?y - of_int n\<bar> < 1 / 2" using lo hi by linarith
  qed
qed

text \<open>
  The distance in \<open>binary64\<close>: a finite number for coordinates up to 1000, zero at the
  threshold itself, \<open>OverflowError\<close> at latitude \<open>2 ^ 700\<close>, and its value at the example
  position, which equals the float of 0.01 for 28L.
\<close>

lemma threshold_small:
  "RUNWAY_28_THRESHOLD rw = (tlat, tlon) \<Longrightarrow> \<bar>tlat\<bar> \<le> 200 \<and> \<bar>tlon\<bar> \<le> 200"
  by (cases rw) auto

lemma literal_binary64_small:
  "\<bar>x\<bar> \<le> 500 \<Longrightarrow> \<exists>y. literal binary64 x = Fin y \<and> \<bar>y\<bar> \<le> 1000 \<and> (0 \<le> x \<longrightarrow> 0 \<le> y)"
  using rnd_abs_le[of x] rnd_nonneg[of x] by (simp add: binary64_def to_float_Fin)

lemma distance_binary64_value:
  assumes "\<bar>x\<bar> \<le> 1000" and "\<bar>y\<bar> \<le> 1000" and "RUNWAY_28_THRESHOLD rw = (tlat, tlon)"
  shows "distance binary64 (Fin x) (Fin y) rw = Inr (Fin (b64_distance x y tlat tlon))"
proof -
  from threshold_small[OF assms(3)] have t: "\<bar>tlat\<bar> \<le> 200" "\<bar>tlon\<bar> \<le> 200" by simp_all
  have lit: "literal binary64 tlat = Fin (rnd tlat)" "literal binary64 tlon = Fin (rnd tlon)"
    using t by (simp_all add: binary64_def to_float_Fin)
  have step: "fpow2 binary64 (fsub binary64 (Fin z) (Fin (rnd c)))
        = Some (Fin (rnd (rnd (z - rnd c) * rnd (z - rnd c))))
      \<and> 0 \<le> rnd (rnd (z - rnd c) * rnd (z - rnd c))
      \<and> rnd (rnd (z - rnd c) * rnd (z - rnd c)) \<le> 10 ^ 8"
    if "\<bar>z\<bar> \<le> 1000" and "\<bar>c\<bar> \<le> 200" for z c
  proof -
    have rt: "\<bar>rnd c\<bar> \<le> 400"
      by (rule order_trans[OF rnd_abs_le]) (use that(2) in simp)
    have d: "\<bar>z - rnd c\<bar> \<le> 1400" using that(1) rt by linarith
    then have s: "fsub binary64 (Fin z) (Fin (rnd c)) = Fin (rnd (z - rnd c))"
      by (simp add: binary64_def to_float_Fin)
    have rd: "\<bar>rnd (z - rnd c)\<bar> \<le> 2800"
      by (rule order_trans[OF rnd_abs_le]) (use d in simp)
    then have "\<bar>rnd (z - rnd c)\<bar> \<le> 10 ^ 4" by simp
    then have p: "fpow2 binary64 (Fin (rnd (z - rnd c)))
        = Some (Fin (rnd (rnd (z - rnd c) * rnd (z - rnd c))))"
      using b64_pow2_Fin[of "rnd (z - rnd c)"] by (simp add: binary64_def del: b64_pow2.simps)
    let ?q = "rnd (z - rnd c) * rnd (z - rnd c)"
    have q0: "0 \<le> ?q" by simp
    have "?q = \<bar>rnd (z - rnd c)\<bar> * \<bar>rnd (z - rnd c)\<bar>" by simp
    also have "\<dots> \<le> 2800 * 2800" using rd by (intro mult_mono) auto
    finally have q1: "?q \<le> 7840000" by simp
    have "0 \<le> rnd ?q" using q0 by (rule rnd_nonneg)
    moreover have "\<bar>rnd ?q\<bar> \<le> 10 ^ 8"
      by (rule order_trans[OF rnd_abs_le]) (use q0 q1 in simp)
    then have "rnd ?q \<le> 10 ^ 8" by simp
    ultimately show ?thesis using s p by simp
  qed
  let ?u = "rnd (rnd (x - rnd tlat) * rnd (x - rnd tlat))"
  let ?v = "rnd (rnd (y - rnd tlon) * rnd (y - rnd tlon))"
  from step[OF assms(1) t(1)] step[OF assms(2) t(2)]
  have u: "fpow2 binary64 (fsub binary64 (Fin x) (Fin (rnd tlat))) = Some (Fin ?u)"
      "0 \<le> ?u" "?u \<le> 10 ^ 8"
    and v: "fpow2 binary64 (fsub binary64 (Fin y) (Fin (rnd tlon))) = Some (Fin ?v)"
      "0 \<le> ?v" "?v \<le> 10 ^ 8"
    by simp_all
  have "\<bar>?u + ?v\<bar> \<le> 10 ^ 9" using u(2,3) v(2,3) by simp
  then have a: "fadd binary64 (Fin ?u) (Fin ?v) = Fin (rnd (?u + ?v))"
    by (simp add: binary64_def to_float_Fin)
  have n: "0 \<le> rnd (?u + ?v)" using u(2) v(2) by (intro rnd_nonneg) simp
  then have s: "fsqrt binary64 (Fin (rnd (?u + ?v))) = Some (Fin (rnd (sqrt (rnd (?u + ?v)))))"
    by (simp add: binary64_def)
  show ?thesis
    by (simp add: distance_def assms(3) lit u(1) v(1) a s b64_distance_def)
qed

lemma distance_binary64_finite:
  assumes "\<bar>x\<bar> \<le> 1000" and "\<bar>y\<bar> \<le> 1000"
  shows "\<exists>d. distance binary64 (Fin x) (Fin y) rw = Inr (Fin d) \<and> 0 \<le> d"
proof -
  obtain tlat tlon where t: "RUNWAY_28_THRESHOLD rw = (tlat, tlon)"
    by (cases "RUNWAY_28_THRESHOLD rw")
  have "0 \<le> b64_distance x y tlat tlon"
    unfolding b64_distance_def
    by (intro rnd_nonneg real_sqrt_ge_zero add_nonneg_nonneg zero_le_square)
  with distance_binary64_value[OF assms t] show ?thesis by blast
qed

lemma distance_binary64_at_threshold:
  assumes "RUNWAY_28_THRESHOLD rw = (tlat, tlon)"
  shows "distance binary64 (literal binary64 tlat) (literal binary64 tlon) rw = Inr (Fin 0)"
proof -
  from threshold_small[OF assms] have "\<bar>tlat\<bar> \<le> 10 ^ 9" "\<bar>tlon\<bar> \<le> 10 ^ 9" by simp_all
  then have l: "to_float tlat = Fin (rnd tlat)" "to_float tlon = Fin (rnd tlon)"
    by (simp_all add: to_float_Fin)
  have lit: "literal binary64 = to_float" by (simp add: binary64_def)
  have z: "to_float 0 = Fin 0" using to_float_Fin[of 0] by (simp add: rnd_0)
  have "0 < overflow_threshold" by (simp add: overflow_threshold_def)
  then have p: "fpow2 binary64 (Fin 0) = Some (Fin 0)"
    by (simp add: binary64_def rnd_0)
  have s: "fsub binary64 (Fin a) (Fin a) = Fin 0" for a
    by (simp add: binary64_def z)
  have a: "fadd binary64 (Fin 0) (Fin 0) = Fin 0" by (simp add: binary64_def z)
  have q: "fsqrt binary64 (Fin 0) = Some (Fin 0)" by (simp add: binary64_def rnd_0)
  show ?thesis
    by (simp add: distance_def assms lit l s p a q)
qed

lemma distance_far:
  "distance binary64 (Fin (2 ^ 700)) lon R28L = Inl OtherException"
proof -
  have l: "literal binary64 37.6161 = Fin (rnd 37.6161)"
    using to_float_Fin[of "37.6161"] by (simp add: binary64_def)
  have r: "\<bar>rnd 37.6161\<bar> \<le> 400"
    by (rule order_trans[OF rnd_abs_le]) simp
  let ?x = "2 ^ 700 - rnd 37.6161"
  have lo: "2 ^ 699 \<le> ?x" using r by (simp add: abs_le_iff)
  have hi: "?x \<le> 2 ^ 701" using r by (simp add: abs_le_iff)
  have "(2::real) ^ 701 < overflow_threshold" by (simp add: overflow_threshold_def)
  with lo hi have t: "to_float ?x = Fin (rnd ?x)"
    by (simp add: to_float_def)
  have "1 \<le> \<bar>?x\<bar>" using lo by simp
  from rnd_abs_ge[OF this] lo have z: "2 ^ 698 \<le> \<bar>rnd ?x\<bar>" by simp
  have "(2::real) ^ 698 * 2 ^ 698 \<le> \<bar>rnd ?x\<bar> * \<bar>rnd ?x\<bar>"
    using z by (intro mult_mono) simp_all
  moreover have "overflow_threshold \<le> (2::real) ^ 698 * 2 ^ 698"
    by (simp add: overflow_threshold_def)
  ultimately have "overflow_threshold \<le> rnd ?x * rnd ?x" by simp
  then have p: "b64_pow2 (Fin (rnd ?x)) = None" by simp
  show ?thesis
    using l t p by (simp add: distance_def binary64_def)
qed

lemma edge_distances:
  "b64_distance edge_lat edge_lon 37.6161 (- 122.3580) = 5764607523034235 / 2 ^ 59 \<and>
   rnd 0.01 = 5764607523034235 / 2 ^ 59 \<and>
   5764607523034235 / 2 ^ 59 < b64_distance edge_lat edge_lon 37.6188 (- 122.3530)"
proof -
  define tlat28L :: real where "tlat28L = 5293995435722854 / 2 ^ 47"
  have r_tlat28L: "rnd (37.6161) = tlat28L"
    unfolding tlat28L_def
    by (rule trans[OF rnd_scaled[where m = 47 and n = "5293995435722854"]]) simp_all
  define tlon28L :: real where "tlon28L = - 8610178800090612 / 2 ^ 46"
  have r_tlon28L: "rnd (- 122.3580) = tlon28L"
    unfolding tlon28L_def
    by (rule trans[OF rnd_scaled[where m = 46 and n = "-8610178800090612"]]) simp_all
  define a28L :: real where "a28L = - 7765073165484032 / 2 ^ 61"
  have r_a28L: "rnd (edge_lat - tlat28L) = a28L"
    unfolding edge_lat_def tlat28L_def a28L_def
    by (rule trans[OF rnd_scaled[where m = 61 and n = "-7765073165484032"]]) simp_all
  define asq28L :: real where "asq28L = 6694240857787493 / 2 ^ 69"
  have r_asq28L: "rnd (a28L * a28L) = asq28L"
    unfolding a28L_def asq28L_def
    by (rule trans[OF rnd_scaled[where m = 69 and n = "6694240857787493"]]) simp_all
  define b28L :: real where "b28L = - 5427907268509696 / 2 ^ 59"
  have r_b28L: "rnd (edge_lon - tlon28L) = b28L"
    unfolding edge_lon_def tlon28L_def b28L_def
    by (rule trans[OF rnd_scaled[where m = 59 and n = "-5427907268509696"]]) simp_all
  define bsq28L :: real where "bsq28L = 6541917522260385 / 2 ^ 66"
  have r_bsq28L: "rnd (b28L * b28L) = bsq28L"
    unfolding b28L_def bsq28L_def
    by (rule trans[OF rnd_scaled[where m = 66 and n = "6541917522260385"]]) simp_all
  define s28L :: real where "s28L = 7378697629483822 / 2 ^ 66"
  have r_s28L: "rnd (asq28L + bsq28L) = s28L"
    unfolding asq28L_def bsq28L_def s28L_def
    by (rule trans[OF rnd_scaled[where m = 66 and n = "7378697629483822"]]) simp_all
  define d28L :: real where "d28L = 5764607523034235 / 2 ^ 59"
  have r_d28L: "rnd (sqrt s28L) = d28L"
    unfolding s28L_def d28L_def
    by (rule trans[OF rnd_sqrt_scaled[where m = 59 and n = "5764607523034235"]]) (simp_all add: power2_eq_square)
  define tlat28R :: real where "tlat28R = 5294375426941413 / 2 ^ 47"
  have r_tlat28R: "rnd (37.6188) = tlat28R"
    unfolding tlat28R_def
    by (rule trans[OF rnd_scaled[where m = 47 and n = "5294375426941413"]]) simp_all
  define tlon28R :: real where "tlon28R = - 8609826956369723 / 2 ^ 46"
  have r_tlon28R: "rnd (- 122.3530) = tlon28R"
    unfolding tlon28R_def
    by (rule trans[OF rnd_scaled[where m = 46 and n = "-8609826956369723"]]) simp_all
  define a28R :: real where "a28R = - 6995424645177344 / 2 ^ 60"
  have r_a28R: "rnd (edge_lat - tlat28R) = a28R"
    unfolding edge_lat_def tlat28R_def a28R_def
    by (rule trans[OF rnd_scaled[where m = 60 and n = "-6995424645177344"]]) simp_all
  define asq28R :: real where "asq28R = 5432983614811989 / 2 ^ 67"
  have r_asq28R: "rnd (a28R * a28R) = asq28R"
    unfolding a28R_def asq28R_def
    by (rule trans[OF rnd_scaled[where m = 67 and n = "5432983614811989"]]) simp_all
  define b28R :: real where "b28R = - 8310211030032384 / 2 ^ 59"
  have r_b28R: "rnd (edge_lon - tlon28R) = b28R"
    unfolding edge_lon_def tlon28R_def b28R_def
    by (rule trans[OF rnd_scaled[where m = 59 and n = "-8310211030032384"]]) simp_all
  define bsq28R :: real where "bsq28R = 7667156616672155 / 2 ^ 65"
  have r_bsq28R: "rnd (b28R * b28R) = bsq28R"
    unfolding b28R_def bsq28R_def
    by (rule trans[OF rnd_scaled[where m = 65 and n = "7667156616672155"]]) simp_all
  define s28R :: real where "s28R = 4512701260187576 / 2 ^ 64"
  have r_s28R: "rnd (asq28R + bsq28R) = s28R"
    unfolding asq28R_def bsq28R_def s28R_def
    by (rule trans[OF rnd_scaled[where m = 64 and n = "4512701260187576"]]) simp_all
  define d28R :: real where "d28R = 4508148146835365 / 2 ^ 58"
  have r_d28R: "rnd (sqrt s28R) = d28R"
    unfolding s28R_def d28R_def
    by (rule trans[OF rnd_sqrt_scaled[where m = 58 and n = "4508148146835365"]]) (simp_all add: power2_eq_square)
  define thr :: real where "thr = 5764607523034235 / 2 ^ 59"
  have r_thr: "rnd (0.01) = thr"
    unfolding thr_def
    by (rule trans[OF rnd_scaled[where m = 59 and n = "5764607523034235"]]) simp_all

  have l: "b64_distance edge_lat edge_lon 37.6161 (- 122.3580) = d28L"
    unfolding b64_distance_def r_tlat28L r_tlon28L r_a28L r_asq28L r_b28L r_bsq28L r_s28L r_d28L ..
  have r: "b64_distance edge_lat edge_lon 37.6188 (- 122.3530) = d28R"
    unfolding b64_distance_def r_tlat28R r_tlon28R r_a28R r_asq28R r_b28R r_bsq28R r_s28R r_d28R ..
  show ?thesis
    unfolding l r r_thr by (simp add: d28L_def d28R_def thr_def)
qed

section \<open>Properties of the classification primitives\<close>

text \<open>The fields of the example inputs.\<close>

lemma landing_28L_fields:
  "callsign landing_28L = Some ''UAL1''"
  "latitude landing_28L = Some (literal binary64 37.6161)"
  "longitude landing_28L = Some (literal binary64 (- 122.3580))"
  "altitude landing_28L = Some 500"
  "vertical_speed landing_28L = Some (- 10)"
  "heading landing_28L = Some 280"
  by (simp_all add: landing_28L_def)

lemma no_callsign_fields:
  "callsign no_callsign = None"
  "latitude no_callsign = Some (literal binary64 37.6161)"
  "longitude no_callsign = Some (literal binary64 (- 122.3580))"
  "altitude no_callsign = Some 500"
  "vertical_speed no_callsign = Some (- 10)"
  "heading no_callsign = Some 280"
  by (simp_all add: no_callsign_def landing_28L_def)

lemma no_position_fields:
  "callsign no_position = Some ''N1''" "latitude no_position = None"
  "longitude no_position = None" "altitude no_position = Some 500"
  "vertical_speed no_position = Some (- 10)" "heading no_position = None"
  by (simp_all add: no_position_def)

lemma eastbound_fields:
  "latitude eastbound = None" "longitude eastbound = None" "heading eastbound = Some 100"
  by (simp_all add: eastbound_def no_position_def)

lemma edge_flight_fields:
  "latitude edge_flight = Some (Fin edge_lat)" "longitude edge_flight = Some (Fin edge_lon)"
  by (simp_all add: edge_flight_def landing_28L_def)

lemma far_flight_fields:
  "latitude far_flight = Some (Fin (2 ^ 700))"
  "longitude far_flight = Some (literal binary64 (- 122.3580))"
  by (simp_all add: far_flight_def landing_28L_def)

lemma full_details_codes:
  "aircraft_code full_details = Inr (JStr ''B738'')"
  "airline_name full_details = Inr (JStr ''United'')"
  by (simp_all add: full_details_def aircraft_code_def airline_name_def py_get_def)

lemma api_fields:
  "get_flights one_landing = Inr [landing_28L]"
  "get_flight_details one_landing n f = Inr full_details"
  "get_flights no_flights = Inr []"
  "get_flights flaky = Inr [landing_28L]"
  "get_flight_details flaky n f = (if n = 0 then Inl KeyError else Inr full_details)"
  "get_flights eleven = Inr eleven_flights"
  "get_flight_details eleven n f = Inr full_details"
  "get_flights unreachable_provider = Inl OtherException"
  "get_flight_details unreachable_provider n f = Inl OtherException"
  by (simp_all add: one_landing_def no_flights_def flaky_def eleven_def unreachable_provider_def)

lemma init_fields:
  "self_data init = []" "self_new_data init = False" "self_processing init = False"
  "self_active_runways init = [R28L, R28R]"
  by (simp_all add: init_def)

text \<open>
  Claim C1. For a flight that has altitude \<open>a\<close> and vertical speed \<open>v\<close>,
  \<open>determine_operation\<close> returns Landing iff \<open>a \<le> 1000\<close> and \<open>v < 0\<close>, Takeoff iff
  \<open>a \<le> 3000\<close> and \<open>v > 0\<close>, and \<open>None\<close> otherwise, in particular when \<open>a > 3000\<close> or
  \<open>v = 0\<close>; a flight without altitude or without vertical speed gives \<open>None\<close>. The two
  conditions are examined in sequence and behave as if checked independently.
\<close>

theorem determine_operation_spec:
  "(altitude f = Some a \<and> vertical_speed f = Some v \<longrightarrow>
      (determine_operation f = Some Landing \<longleftrightarrow> a \<le> 1000 \<and> v < 0) \<and>
      (determine_operation f = Some Takeoff \<longleftrightarrow> a \<le> 3000 \<and> v > 0) \<and>
      (determine_operation f = None \<longleftrightarrow> \<not> (a \<le> 1000 \<and> v < 0) \<and> \<not> (a \<le> 3000 \<and> v > 0)) \<and>
      (a > 3000 \<or> v = 0 \<longrightarrow> determine_operation f = None)) \<and>
   (altitude f = None \<or> vertical_speed f = None \<longrightarrow> determine_operation f = None)"
  by (auto simp: determine_operation_def LANDING_ALTITUDE_THRESHOLD_def
      TAKEOFF_ALTITUDE_THRESHOLD_def split: option.splits)

theorem determine_operation_spec_witness:
  "determine_operation landing_28L = Some Landing \<and>
   determine_operation (landing_28L\<lparr>altitude := Some 2000, vertical_speed := Some 15\<rparr>) = Some Takeoff \<and>
   determine_operation (landing_28L\<lparr>altitude := Some 5000\<rparr>) = None \<and>
   determine_operation (landing_28L\<lparr>altitude := None\<rparr>) = None"
  using determine_operation_spec[of landing_28L 500 "-10"]
    determine_operation_spec[of "landing_28L\<lparr>altitude := Some 2000, vertical_speed := Some 15\<rparr>" 2000 15]
    determine_operation_spec[of "landing_28L\<lparr>altitude := Some 5000\<rparr>" 5000 "-10"]
    determine_operation_spec[of "landing_28L\<lparr>altitude := None\<rparr>"]
  by (simp add: landing_28L_fields)

text \<open>The runway found by the search is one of the list it searches.\<close>

lemma closest_loop_mem:
  "closest_loop A lat lon rws (c, m) = Inr (c', m') \<Longrightarrow> c' = c \<or> (\<exists>rw \<in> set rws. c' = Some rw)"
  by (induction rws arbitrary: c m) (auto split: if_splits sum.splits)

lemma closest_loop_exn: "closest_loop A lat lon rws cm = Inl e \<Longrightarrow> e = OtherException"
proof (induction rws arbitrary: cm)
  case Nil
  then show ?case by (cases cm) simp
next
  case (Cons rw rws)
  then show ?case
    by (cases cm)
       (auto simp: distance_def split: sum.splits if_splits prod.splits option.splits)
qed

lemma determine_runway_mem:
  "determine_runway A self f = Inr (Some rw) \<Longrightarrow> rw \<in> set (self_active_runways self)"
  by (auto simp: determine_runway_def split: option.splits prod.splits if_splits sum.splits
      dest!: closest_loop_mem)

lemma determine_runway_exn: "determine_runway A self f = Inl e \<Longrightarrow> e = OtherException"
  by (auto simp: determine_runway_def split: option.splits prod.splits if_splits sum.splits
      dest: closest_loop_exn)

text \<open>The search over a pair, in any arithmetic.\<close>

lemma determine_runway_pair:
  assumes "self_active_runways self = [r1, r2]" and "latitude f = Some lat"
    and "longitude f = Some lon"
    and "distance A lat lon r1 = Inr d1" and "distance A lat lon r2 = Inr d2"
  shows "determine_runway A self f =
           Inr (nearest_runway (literal A RUNWAY_PROXIMITY_THRESHOLD) (r1, d1) (r2, d2))"
proof -
  have "\<not> fle PosInf t \<or> t = PosInf" for t by (cases t) simp_all
  then show ?thesis
    using assms by (auto simp: determine_runway_def nearest_runway_def)
qed

lemma determine_runway_raises:
  assumes "self_active_runways self = [r1, r2]" and "latitude f = Some lat"
    and "longitude f = Some lon"
    and "distance A lat lon r1 = Inl e \<or>
         (\<exists>d1. distance A lat lon r1 = Inr d1 \<and> distance A lat lon r2 = Inl e)"
  shows "determine_runway A self f = Inl e"
  using assms by (auto simp: determine_runway_def)

lemma nearest_runway_finite:
  "nearest_runway (Fin t) (r1, Fin x1) (r2, Fin x2) =
     (if min x1 x2 \<le> t then Some (if x1 \<le> x2 then r1 else r2) else None)"
  by (auto simp: nearest_runway_def min_def)

lemma determine_runway_at_28L:
  assumes "self_active_runways s = [R28L, R28R]"
    and "latitude f = Some (literal binary64 37.6161)"
    and "longitude f = Some (literal binary64 (- 122.3580))"
  shows "determine_runway binary64 s f = Inr (Some R28L)"
proof -
  have t: "RUNWAY_28_THRESHOLD R28L = (37.6161, - 122.3580)" by simp
  have d1: "distance binary64 (literal binary64 37.6161) (literal binary64 (- 122.3580)) R28L
      = Inr (Fin 0)"
    using t by (rule distance_binary64_at_threshold)
  obtain x where x: "literal binary64 37.6161 = Fin x" "\<bar>x\<bar> \<le> 1000"
    using literal_binary64_small[of "37.6161"] by auto
  obtain y where y: "literal binary64 (- 122.3580) = Fin y" "\<bar>y\<bar> \<le> 1000"
    using literal_binary64_small[of "- 122.3580"] by auto
  obtain d2 where d2: "distance binary64 (Fin x) (Fin y) R28R = Inr (Fin d2)" "0 \<le> d2"
    using distance_binary64_finite[OF x(2) y(2)] by blast
  obtain c where c: "literal binary64 RUNWAY_PROXIMITY_THRESHOLD = Fin c" "0 \<le> c"
    using literal_binary64_small[of RUNWAY_PROXIMITY_THRESHOLD]
    by (auto simp: RUNWAY_PROXIMITY_THRESHOLD_def)
  have "determine_runway binary64 s f =
      Inr (nearest_runway (Fin c) (R28L, Fin 0) (R28R, Fin d2))"
    using determine_runway_pair[OF assms(1-3), of binary64 "Fin 0" "Fin d2"] d1 d2(1)
    by (simp only: x(1) y(1) c(1))
  also have "\<dots> = Inr (Some R28L)"
    using d2(2) c(2) by (simp add: nearest_runway_finite)
  finally show ?thesis .
qed

lemma determine_runway_far: "determine_runway binary64 init far_flight = Inl OtherException"
  by (rule determine_runway_raises[OF init_fields(4) far_flight_fields(1) far_flight_fields(2)])
     (rule disjI1, rule distance_far)

lemma determine_runway_edge: "determine_runway binary64 init edge_flight = Inr (Some R28L)"
proof -
  have b: "\<bar>edge_lat\<bar> \<le> 1000" "\<bar>edge_lon\<bar> \<le> 1000"
    by (simp_all add: edge_lat_def edge_lon_def)
  have d1: "distance binary64 (Fin edge_lat) (Fin edge_lon) R28L
      = Inr (Fin (b64_distance edge_lat edge_lon 37.6161 (- 122.3580)))"
    by (rule distance_binary64_value[OF b]) simp
  have d2: "distance binary64 (Fin edge_lat) (Fin edge_lon) R28R
      = Inr (Fin (b64_distance edge_lat edge_lon 37.6188 (- 122.3530)))"
    by (rule distance_binary64_value[OF b]) simp
  have c: "literal binary64 RUNWAY_PROXIMITY_THRESHOLD = Fin (rnd 0.01)"
    using to_float_Fin[of "0.01"] by (simp add: binary64_def RUNWAY_PROXIMITY_THRESHOLD_def)
  have "determine_runway binary64 init edge_flight =
      Inr (nearest_runway (literal binary64 RUNWAY_PROXIMITY_THRESHOLD)
        (R28L, Fin (b64_distance edge_lat edge_lon 37.6161 (- 122.3580)))
        (R28R, Fin (b64_distance edge_lat edge_lon 37.6188 (- 122.3530))))"
    by (rule determine_runway_pair[OF _ _ _ d1 d2]) (simp_all add: init_fields edge_flight_fields)
  also have "\<dots> = Inr (Some R28L)"
    unfolding c nearest_runway_finite using edge_distances by simp
  finally show ?thesis .
qed

text \<open>
  Claim C2, amended. \<open>determine_runway\<close> computes, in the float arithmetic of the platform,
  \<open>sqrt((lat - t_lat) ** 2 + (lon - t_lon) ** 2)\<close> for the thresholds of the active pair
  \<open>[r1, r2]\<close> only. When neither computation raises, it returns the runway of the smaller
  computed distance iff that distance is at most the float of 0.01, otherwise \<open>None\<close>; on
  equal computed distances the first runway of the pair is returned, and a computed distance
  that is an infinity or a NaN is never the smaller one. An exception of the arithmetic
  leaves the function. A flight without latitude or longitude gives \<open>None\<close>.
\<close>

theorem determine_runway_spec:
  "RUNWAY_PROXIMITY_THRESHOLD = 0.01 \<and>
   distance A lat lon r =
     (case fpow2 A (fsub A lat (literal A (fst (RUNWAY_28_THRESHOLD r)))) of
        None \<Rightarrow> Inl OtherException
      | Some dlat2 \<Rightarrow>
         (case fpow2 A (fsub A lon (literal A (snd (RUNWAY_28_THRESHOLD r)))) of
            None \<Rightarrow> Inl OtherException
          | Some dlon2 \<Rightarrow>
             (case fsqrt A (fadd A dlat2 dlon2) of
                None \<Rightarrow> Inl OtherException
              | Some d \<Rightarrow> Inr d))) \<and>
   (self_active_runways self = [r1, r2] \<and> latitude f = Some lat \<and> longitude f = Some lon \<and>
      distance A lat lon r1 = Inr d1 \<and> distance A lat lon r2 = Inr d2 \<longrightarrow>
        determine_runway A self f =
          Inr (nearest_runway (literal A RUNWAY_PROXIMITY_THRESHOLD) (r1, d1) (r2, d2))) \<and>
   (self_active_runways self = [r1, r2] \<and> latitude f = Some lat \<and> longitude f = Some lon \<and>
      distance A lat lon r1 = Inr (Fin x1) \<and> distance A lat lon r2 = Inr (Fin x2) \<and>
      literal A RUNWAY_PROXIMITY_THRESHOLD = Fin t \<longrightarrow>
        determine_runway A self f =
          Inr (if min x1 x2 \<le> t then Some (if x1 \<le> x2 then r1 else r2) else None)) \<and>
   (self_active_runways self = [r1, r2] \<and> latitude f = Some lat \<and> longitude f = Some lon \<and>
      (distance A lat lon r1 = Inl e \<or>
       (\<exists>d. distance A lat lon r1 = Inr d \<and> distance A lat lon r2 = Inl e)) \<longrightarrow>
        determine_runway A self f = Inl e) \<and>
   (latitude f = None \<or> longitude f = None \<longrightarrow> determine_runway A self f = Inr None)"
proof (intro conjI impI)
  show "RUNWAY_PROXIMITY_THRESHOLD = 0.01" by (simp add: RUNWAY_PROXIMITY_THRESHOLD_def)
next
  show "distance A lat lon r =
     (case fpow2 A (fsub A lat (literal A (fst (RUNWAY_28_THRESHOLD r)))) of
        None \<Rightarrow> Inl OtherException
      | Some dlat2 \<Rightarrow>
         (case fpow2 A (fsub A lon (literal A (snd (RUNWAY_28_THRESHOLD r)))) of
            None \<Rightarrow> Inl OtherException
          | Some dlon2 \<Rightarrow>
             (case fsqrt A (fadd A dlat2 dlon2) of
                None \<Rightarrow> Inl OtherException
              | Some d \<Rightarrow> Inr d)))"
    by (cases "RUNWAY_28_THRESHOLD r") (simp add: distance_def split: option.splits)
next
  assume "self_active_runways self = [r1, r2] \<and> latitude f = Some lat \<and>
      longitude f = Some lon \<and> distance A lat lon r1 = Inr d1 \<and> distance A lat lon r2 = Inr d2"
  then show "determine_runway A self f =
          Inr (nearest_runway (literal A RUNWAY_PROXIMITY_THRESHOLD) (r1, d1) (r2, d2))"
    by (intro determine_runway_pair[where lat = lat and lon = lon]) simp_all
next
  assume h: "self_active_runways self = [r1, r2] \<and> latitude f = Some lat \<and>
      longitude f = Some lon \<and> distance A lat lon r1 = Inr (Fin x1) \<and>
      distance A lat lon r2 = Inr (Fin x2) \<and> literal A RUNWAY_PROXIMITY_THRESHOLD = Fin t"
  then have "determine_runway A self f =
      Inr (nearest_runway (literal A RUNWAY_PROXIMITY_THRESHOLD) (r1, Fin x1) (r2, Fin x2))"
    by (intro determine_runway_pair[where lat = lat and lon = lon]) simp_all
  with h show "determine_runway A self f =
          Inr (if min x1 x2 \<le> t then Some (if x1 \<le> x2 then r1 else r2) else None)"
    by (simp add: nearest_runway_finite)
next
  assume "self_active_runways self = [r1, r2] \<and> latitude f = Some lat \<and>
      longitude f = Some lon \<and>
      (distance A lat lon r1 = Inl e \<or>
       (\<exists>d. distance A lat lon r1 = Inr d \<and> distance A lat lon r2 = Inl e))"
  then show "determine_runway A self f = Inl e"
    by (intro determine_runway_raises[where lat = lat and lon = lon and ?r1.0 = r1
          and ?r2.0 = r2]) auto
next
  assume "latitude f = None \<or> longitude f = None"
  then show "determine_runway A self f = Inr None"
    by (auto simp: determine_runway_def split: option.splits)
qed

theorem determine_runway_spec_witness:
  "determine_runway binary64 init landing_28L = Inr (Some R28L) \<and>
   determine_runway binary64 init far_flight = Inl OtherException \<and>
   determine_runway binary64 init no_position = Inr None"
proof -
  have t: "RUNWAY_28_THRESHOLD R28L = (37.6161, - 122.3580)" by simp
  have d1: "distance binary64 (literal binary64 37.6161) (literal binary64 (- 122.3580)) R28L
      = Inr (Fin 0)"
    using t by (rule distance_binary64_at_threshold)
  obtain x where x: "literal binary64 37.6161 = Fin x" "\<bar>x\<bar> \<le> 1000"
    using literal_binary64_small[of "37.6161"] by auto
  obtain y where y: "literal binary64 (- 122.3580) = Fin y" "\<bar>y\<bar> \<le> 1000"
    using literal_binary64_small[of "- 122.3580"] by auto
  obtain d2 where d2: "distance binary64 (Fin x) (Fin y) R28R = Inr (Fin d2)" "0 \<le> d2"
    using distance_binary64_finite[OF x(2) y(2)] by blast
  obtain c where c: "literal binary64 RUNWAY_PROXIMITY_THRESHOLD = Fin c" "0 \<le> c"
    using literal_binary64_small[of RUNWAY_PROXIMITY_THRESHOLD]
    by (auto simp: RUNWAY_PROXIMITY_THRESHOLD_def)
  have d1': "distance binary64 (Fin x) (Fin y) R28L = Inr (Fin 0)"
    using d1 by (simp only: x(1) y(1))
  have f: "latitude landing_28L = Some (Fin x)" "longitude landing_28L = Some (Fin y)"
    by (simp_all only: landing_28L_fields x(1) y(1))
  from determine_runway_spec[where A = binary64 and self = init and f = landing_28L
      and lat = "Fin x" and lon = "Fin y" and ?r1.0 = R28L and ?r2.0 = R28R
      and ?x1.0 = 0 and ?x2.0 = d2 and t = c]
    f d1' d2 c
  have 1: "determine_runway binary64 init landing_28L = Inr (Some R28L)"
    by (simp add: init_fields)
  have df: "distance binary64 (Fin (2 ^ 700)) (literal binary64 (- 122.3580)) R28L
      = Inl OtherException"
    by (rule distance_far)
  from determine_runway_spec[where A = binary64 and self = init and f = far_flight
      and lat = "Fin (2 ^ 700)" and lon = "literal binary64 (- 122.3580)"
      and ?r1.0 = R28L and ?r2.0 = R28R and e = OtherException] df
  have 2: "determine_runway binary64 init far_flight = Inl OtherException"
    by (simp add: init_fields far_flight_fields)
  from determine_runway_spec[where A = binary64 and self = init and f = no_position]
  have 3: "determine_runway binary64 init no_position = Inr None"
    by (simp add: no_position_fields)
  from 1 2 3 show ?thesis by (simp only: simp_thms)
qed

text \<open>
  As written, claim C2 decides by the distance itself. In binary64 the flight at the example
  position is assigned to 28L, although its distance to either threshold of the pair
  exceeds 0.01: the computed distance to 28L is rounded to the float of 0.01. And for the
  flight at latitude \<open>2.0 ** 700\<close> nothing is returned: \<open>**\<close> raises \<open>OverflowError\<close>.
\<close>

theorem determine_runway_spec_counterexample:
  "RUNWAY_PROXIMITY_THRESHOLD <
     sqrt ((edge_lat - fst (RUNWAY_28_THRESHOLD R28L))\<^sup>2 +
           (edge_lon - snd (RUNWAY_28_THRESHOLD R28L))\<^sup>2) \<and>
   RUNWAY_PROXIMITY_THRESHOLD <
     sqrt ((edge_lat - fst (RUNWAY_28_THRESHOLD R28R))\<^sup>2 +
           (edge_lon - snd (RUNWAY_28_THRESHOLD R28R))\<^sup>2) \<and>
   self_active_runways init = [R28L, R28R] \<and>
   latitude edge_flight = Some (Fin edge_lat) \<and>
   longitude edge_flight = Some (Fin edge_lon) \<and>
   determine_runway binary64 init edge_flight = Inr (Some R28L) \<and>
   latitude far_flight = Some (Fin (2 ^ 700)) \<and>
   determine_runway binary64 init far_flight = Inl OtherException"
proof -
  have 1: "RUNWAY_PROXIMITY_THRESHOLD <
     sqrt ((edge_lat - fst (RUNWAY_28_THRESHOLD R28L))\<^sup>2 +
           (edge_lon - snd (RUNWAY_28_THRESHOLD R28L))\<^sup>2)"
    by (rule real_less_rsqrt)
       (simp add: RUNWAY_PROXIMITY_THRESHOLD_def edge_lat_def edge_lon_def power2_eq_square)
  have 2: "RUNWAY_PROXIMITY_THRESHOLD <
     sqrt ((edge_lat - fst (RUNWAY_28_THRESHOLD R28R))\<^sup>2 +
           (edge_lon - snd (RUNWAY_28_THRESHOLD R28R))\<^sup>2)"
    by (rule real_less_rsqrt)
       (simp add: RUNWAY_PROXIMITY_THRESHOLD_def edge_lat_def edge_lon_def power2_eq_square)
  show ?thesis
    by (simp only: 1 2 init_fields edge_flight_fields far_flight_fields determine_runway_edge
        determine_runway_far simp_thms)
qed

lemma count_operations_acc:
  "count_operations fs (w, e) =
     (w + length (filter in_west_band fs), e + length (filter in_east_band fs))"
  by (induction fs arbitrary: w e) (auto simp: in_west_band_def in_east_band_def split: option.splits)

lemma determine_runway_config_eq:
  "determine_runway_config self flights =
     self\<lparr>self_active_runways := infer_runway_configuration flights\<rparr>"
  by (simp add: determine_runway_config_def infer_runway_configuration_def count_operations_acc)

text \<open>
  Claim C3. \<open>determine_runway_config\<close> counts the flights with a heading in [260, 300] as
  west and those with a heading in [80, 120] as east, ignoring flights without a heading and
  headings outside both bands; it selects [10L, 10R] iff the east count strictly exceeds the
  west count and [28L, 28R] otherwise, also on a tie. It writes nothing else.
\<close>

theorem determine_runway_config_spec:
  "self_active_runways (determine_runway_config self flights) = infer_runway_configuration flights
   \<and> (self_active_runways (determine_runway_config self flights) = [R10L, R10R]
        \<longleftrightarrow> length (filter in_east_band flights) > length (filter in_west_band flights))
   \<and> (self_active_runways (determine_runway_config self flights) = [R28L, R28R]
        \<longleftrightarrow> length (filter in_east_band flights) \<le> length (filter in_west_band flights))
   \<and> self_data (determine_runway_config self flights) = self_data self
   \<and> self_new_data (determine_runway_config self flights) = self_new_data self
   \<and> self_processing (determine_runway_config self flights) = self_processing self"
  by (auto simp: determine_runway_config_def infer_runway_configuration_def count_operations_acc)

theorem determine_runway_config_spec_witness:
  "self_active_runways (determine_runway_config init
     [landing_28L\<lparr>heading := Some 100\<rparr>, landing_28L\<lparr>heading := Some 90\<rparr>, landing_28L])
     = [R10L, R10R]"
  using determine_runway_config_spec[of init
     "[landing_28L\<lparr>heading := Some 100\<rparr>, landing_28L\<lparr>heading := Some 90\<rparr>, landing_28L]"]
  by (simp add: infer_runway_configuration_def in_east_band_def in_west_band_def
      landing_28L_fields)

section \<open>Properties of one attempt\<close>

text \<open>
  What one pass through the body of the inner \<open>try\<close> gives, case by case. The body raises
  \<open>AttributeError\<close> for an attribute the flight lacks and for \<open>.get\<close> on an entry of the
  details that is not a dictionary, and what the arithmetic of \<open>determine_runway\<close> raises,
  which is neither a \<open>KeyError\<close> nor an \<open>AttributeError\<close>.
\<close>

lemma py_get_exn: "py_get d k dflt = Inl e \<Longrightarrow> e = AttributeError"
  by (auto simp: py_get_def split: json.splits)

lemma aircraft_code_exn: "aircraft_code d = Inl e \<Longrightarrow> e = AttributeError"
  by (auto simp: aircraft_code_def split: sum.splits dest: py_get_exn)

lemma airline_name_exn: "airline_name d = Inl e \<Longrightarrow> e = AttributeError"
  by (auto simp: airline_name_def split: sum.splits dest: py_get_exn)

lemma build_flight_data_Inl:
  "build_flight_data f d opn rw = Inl e \<longleftrightarrow>
     e = AttributeError \<and>
     (callsign f = None \<or> aircraft_code d = Inl AttributeError \<or> airline_name d = Inl AttributeError
        \<or> altitude f = None \<or> vertical_speed f = None \<or> heading f = None)"
  by (auto simp: build_flight_data_def split: option.splits sum.splits
      dest: aircraft_code_exn airline_name_exn)

lemma build_flight_data_fields:
  "build_flight_data f d opn rw = Inr fd \<Longrightarrow>
     fd_operation fd = opn \<and> fd_runway fd = rw \<and> callsign f = Some (fd_callsign fd) \<and>
     altitude f = Some (fd_altitude fd) \<and> vertical_speed f = Some (fd_vertical_speed fd) \<and>
     heading f = Some (fd_heading fd) \<and> aircraft_code d = Inr (fd_aircraft fd) \<and>
     airline_name d = Inr (fd_airline fd)"
  by (auto simp: build_flight_data_def split: option.splits sum.splits)

lemma determine_operation_Some:
  "determine_operation f = Some opn \<Longrightarrow> altitude f \<noteq> None \<and> vertical_speed f \<noteq> None"
  by (auto simp: determine_operation_def split: option.splits)

lemma attempt_Some:
  "attempt A self f response = Inr (Some fd) \<longleftrightarrow>
     (\<exists>d opn rw. response = Inr d \<and> determine_operation f = Some opn
        \<and> determine_runway A self f = Inr (Some rw) \<and> build_flight_data f d opn rw = Inr fd)"
  by (auto simp: attempt_def split: sum.splits option.splits)

lemma attempt_None:
  "attempt A self f response = Inr None \<longleftrightarrow>
     (\<exists>d rw. response = Inr d \<and> determine_runway A self f = Inr rw \<and>
        (determine_operation f = None \<or> rw = None))"
  by (auto simp: attempt_def split: sum.splits option.splits)

lemma attempt_Inl:
  "attempt A self f response = Inl e \<longleftrightarrow>
     response = Inl e \<or>
     (\<exists>d. response = Inr d \<and> determine_runway A self f = Inl e) \<or>
     (\<exists>d opn rw. response = Inr d \<and> determine_operation f = Some opn
        \<and> determine_runway A self f = Inr (Some rw) \<and> e = AttributeError
        \<and> (callsign f = None \<or> heading f = None
             \<or> aircraft_code d = Inl AttributeError \<or> airline_name d = Inl AttributeError))"
proof -
  have "attempt A self f response = Inl e \<longleftrightarrow>
     response = Inl e \<or>
     (\<exists>d. response = Inr d \<and> determine_runway A self f = Inl e) \<or>
     (\<exists>d opn rw. response = Inr d \<and> determine_operation f = Some opn
        \<and> determine_runway A self f = Inr (Some rw) \<and> build_flight_data f d opn rw = Inl e)"
    by (auto simp: attempt_def split: sum.splits option.splits)
  then show ?thesis
    by (auto simp: build_flight_data_Inl dest: determine_operation_Some)
qed

lemma attempt_runway:
  "attempt A self f response = Inr (Some fd) \<Longrightarrow> fd_runway fd \<in> set (self_active_runways self)"
  by (auto simp: attempt_Some dest: determine_runway_mem build_flight_data_fields)

lemma attempt_from_flight:
  "attempt A self f response = Inr (Some fd) \<Longrightarrow> from_flight f fd"
  by (auto simp: attempt_Some from_flight_def dest: build_flight_data_fields)

lemma field_absence_attempt:
  "field_absence (attempt A self f response) \<longleftrightarrow>
     response = Inl KeyError \<or> response = Inl AttributeError \<or>
     (\<exists>d opn rw. response = Inr d \<and> determine_operation f = Some opn
        \<and> determine_runway A self f = Inr (Some rw)
        \<and> (callsign f = None \<or> heading f = None
             \<or> aircraft_code d = Inl AttributeError \<or> airline_name d = Inl AttributeError))"
  unfolding field_absence_def attempt_Inl by (auto dest: determine_runway_exn)

lemma determine_operation_landing:
  "altitude f = Some 500 \<Longrightarrow> vertical_speed f = Some (- 10) \<Longrightarrow>
   determine_operation f = Some Landing"
  by (simp add: determine_operation_def LANDING_ALTITUDE_THRESHOLD_def)

text \<open>The attempts for the example flights.\<close>

lemma attempt_landing:
  "self_active_runways s = [R28L, R28R] \<Longrightarrow>
   attempt binary64 s landing_28L (Inr full_details) = Inr (Some landing_28L_data)"
  by (simp add: attempt_def determine_runway_at_28L determine_operation_landing
      landing_28L_fields build_flight_data_def full_details_codes landing_28L_data_def)


lemma attempt_no_position:
  "attempt A s no_position response = (case response of Inl e \<Rightarrow> Inl e | Inr d \<Rightarrow> Inr None)"
  by (simp add: attempt_def determine_runway_def no_position_fields
      split: sum.splits option.splits)

section \<open>Properties of the retry loop\<close>

text \<open>
  The retry loop, described by the outcomes of its attempts: it ends at the first attempt
  that does not raise \<open>KeyError\<close> or \<open>AttributeError\<close>, or when \<open>retries\<close> attempts have
  raised one of them.
\<close>

lemma lookups_append: "lookups (xs @ ys) = lookups xs @ lookups ys"
  by (induction xs rule: lookups.induct) auto

lemma sleeps_append: "sleeps (xs @ ys) = sleeps xs @ sleeps ys"
  by (induction xs rule: sleeps.induct) auto



lemma nth_attempt_shift:
  "nth_attempt A self a f (st\<lparr>cy_trace := cy_trace st @ [Lookup f, Sleep d]\<rparr>) i
     = nth_attempt A self a f st (Suc i)"
  by (simp add: nth_attempt_def lookups_append)

lemma retry_step:
  "retry_loop A self a f (Suc n) st =
     (case nth_attempt A self a f st 0 of
        Inr None \<Rightarrow> Inr (st\<lparr>cy_trace := cy_trace st @ [Lookup f]\<rparr>)
      | Inr (Some fd) \<Rightarrow> Inr (st\<lparr>cy_trace := cy_trace st @ [Lookup f], cy_data := cy_data st @ [fd]\<rparr>)
      | Inl e \<Rightarrow> if e = KeyError \<or> e = AttributeError
                 then retry_loop A self a f n (st\<lparr>cy_trace := cy_trace st @ [Lookup f, Sleep RATE_LIMIT_DELAY]\<rparr>)
                 else Inl e)"
  by (simp add: nth_attempt_def Let_def split: sum.splits option.splits)

lemma retry_exhausted:
  "(\<And>i. i < n \<Longrightarrow> field_absence (nth_attempt A self a f st i)) \<Longrightarrow>
   retry_loop A self a f n st = Inr (st\<lparr>cy_trace := cy_trace st @ failed_attempts f n\<rparr>)"
proof (induction n arbitrary: st)
  case 0
  show ?case by (simp add: failed_attempts_def)
next
  case (Suc n)
  let ?st2 = "st\<lparr>cy_trace := cy_trace st @ [Lookup f, Sleep RATE_LIMIT_DELAY]\<rparr>"
  have first: "field_absence (nth_attempt A self a f st 0)" using Suc.prems by simp
  have rest: "\<And>i. i < n \<Longrightarrow> field_absence (nth_attempt A self a f ?st2 i)"
    using Suc.prems by (simp add: nth_attempt_shift)
  have "retry_loop A self a f (Suc n) st = retry_loop A self a f n ?st2"
    using first by (auto simp: retry_step field_absence_def simp del: retry_loop.simps)
  also have "\<dots> = Inr (?st2\<lparr>cy_trace := cy_trace ?st2 @ failed_attempts f n\<rparr>)"
    by (rule Suc.IH) (rule rest)
  also have "\<dots> = Inr (st\<lparr>cy_trace := cy_trace st @ failed_attempts f (Suc n)\<rparr>)"
    by (simp add: failed_attempts_def)
  finally show ?case .
qed




lemma retry_loop_data:
  "retry_loop A self a f n st = Inr st' \<Longrightarrow>
     cy_data st' = cy_data st \<or>
     (\<exists>fd response. attempt A self f response = Inr (Some fd) \<and> cy_data st' = cy_data st @ [fd])"
proof (induction n arbitrary: st)
  case 0
  then show ?case by simp
next
  case (Suc n)
  from Suc.prems show ?case
    by (auto simp: Let_def split: sum.splits option.splits if_splits dest!: Suc.IH)
qed

lemma retry_loop_lookups:
  "retry_loop A self a f n st = Inr st' \<Longrightarrow> 0 < n \<Longrightarrow>
     \<exists>k. 1 \<le> k \<and> k \<le> n \<and> lookups (cy_trace st') = lookups (cy_trace st) @ replicate k f"
proof (induction n arbitrary: st)
  case 0
  then show ?case by simp
next
  case (Suc n)
  let ?st2 = "st\<lparr>cy_trace := cy_trace st @ [Lookup f, Sleep RATE_LIMIT_DELAY]\<rparr>"
  consider (stop) "lookups (cy_trace st') = lookups (cy_trace st) @ [f]"
    | (again) "retry_loop A self a f n ?st2 = Inr st'"
    using Suc.prems(1)
    by (auto simp: Let_def lookups_append split: sum.splits option.splits if_splits)
  then show ?case
  proof cases
    case stop
    then have "1 \<le> (1::nat) \<and> 1 \<le> Suc n \<and>
      lookups (cy_trace st') = lookups (cy_trace st) @ replicate 1 f" by simp
    then show ?thesis by blast
  next
    case again
    show ?thesis
    proof (cases n)
      case 0
      with again have "st' = ?st2" by simp
      then have "1 \<le> (1::nat) \<and> 1 \<le> Suc n \<and>
        lookups (cy_trace st') = lookups (cy_trace st) @ replicate 1 f"
        by (simp add: lookups_append)
      then show ?thesis by blast
    next
      case (Suc m)
      then have "0 < n" by simp
      from Suc.IH[OF again this] obtain k where
        k: "1 \<le> k" "k \<le> n" "lookups (cy_trace st') = lookups (cy_trace ?st2) @ replicate k f"
        by blast
      then have "1 \<le> Suc k \<and> Suc k \<le> Suc n \<and>
        lookups (cy_trace st') = lookups (cy_trace st) @ replicate (Suc k) f"
        by (simp add: lookups_append)
      then show ?thesis by blast
    qed
  qed
qed

text \<open>The retry loops of the example flights.\<close>

lemma retry_landing:
  "self_active_runways s = [R28L, R28R] \<Longrightarrow>
   retry_loop binary64 s one_landing landing_28L RETRIES st =
     Inr (st\<lparr>cy_trace := cy_trace st @ [Lookup landing_28L],
             cy_data := cy_data st @ [landing_28L_data]\<rparr>)"
  by (simp add: RETRIES_def numeral_3_eq_3 Let_def api_fields attempt_landing)

lemma retry_no_position:
  "retry_loop A s eleven no_position RETRIES st =
     Inr (st\<lparr>cy_trace := cy_trace st @ [Lookup no_position]\<rparr>)"
  by (simp add: RETRIES_def numeral_3_eq_3 Let_def api_fields attempt_no_position)




section \<open>Properties of the cycle\<close>

text \<open>Where the records and the lookups of a cycle come from.\<close>

lemma flights_loop_data:
  "flights_loop A self a fs st = Inr st' \<Longrightarrow> fd \<in> set (cy_data st') \<Longrightarrow>
     fd \<in> set (cy_data st) \<or> (\<exists>f \<in> set fs. \<exists>response. attempt A self f response = Inr (Some fd))"
proof (induction fs arbitrary: st)
  case Nil
  then show ?case by simp
next
  case (Cons f fs)
  from Cons.prems(1) obtain st1 where
    r: "retry_loop A self a f RETRIES st = Inr st1" and l: "flights_loop A self a fs st1 = Inr st'"
    by (auto split: sum.splits)
  from Cons.IH[OF l Cons.prems(2)] retry_loop_data[OF r] show ?case
    by auto
qed

lemma flights_loop_lookups:
  "flights_loop A self a fs st = Inr st' \<Longrightarrow>
     \<exists>ks. length ks = length fs \<and> (\<forall>k \<in> set ks. 1 \<le> k \<and> k \<le> RETRIES) \<and>
          lookups (cy_trace st') = lookups (cy_trace st) @ concat (map2 replicate ks fs)"
proof (induction fs arbitrary: st)
  case Nil
  then show ?case by simp
next
  case (Cons f fs)
  from Cons.prems(1) obtain st1 where
    r: "retry_loop A self a f RETRIES st = Inr st1" and l: "flights_loop A self a fs st1 = Inr st'"
    by (auto split: sum.splits)
  have "0 < RETRIES" by (simp add: RETRIES_def)
  from retry_loop_lookups[OF r this] obtain k where
    k: "1 \<le> k" "k \<le> RETRIES" "lookups (cy_trace st1) = lookups (cy_trace st) @ replicate k f"
    by blast
  from Cons.IH[OF l] obtain ks where
    ks: "length ks = length fs" "\<forall>k \<in> set ks. 1 \<le> k \<and> k \<le> RETRIES"
        "lookups (cy_trace st') = lookups (cy_trace st1) @ concat (map2 replicate ks fs)"
    by blast
  have "length (k # ks) = length (f # fs) \<and> (\<forall>k \<in> set (k # ks). 1 \<le> k \<and> k \<le> RETRIES) \<and>
        lookups (cy_trace st') = lookups (cy_trace st) @ concat (map2 replicate (k # ks) (f # fs))"
    using k ks by simp
  then show ?case by blast
qed

lemma collect_fst:
  "fst (collect A a self) =
     (case get_flights a of Inl e \<Rightarrow> self | Inr flights \<Rightarrow> determine_runway_config self flights)"
  by (simp add: collect_def Let_def split: sum.splits)

lemma collect_keeps:
  "self_data (fst (collect A a self)) = self_data self \<and>
   self_new_data (fst (collect A a self)) = self_new_data self \<and>
   self_processing (fst (collect A a self)) = self_processing self"
  by (simp add: collect_fst determine_runway_config_eq split: sum.splits)

lemma collect_lookups:
  assumes "get_flights a = Inr flights" and "snd (collect A a self) = Inr st"
  shows "\<exists>ks. length ks = min MAX_FLIGHT_LOOKUP (length flights) \<and>
              (\<forall>k \<in> set ks. 1 \<le> k \<and> k \<le> RETRIES) \<and>
              lookups (cy_trace st) = concat (map2 replicate ks (take MAX_FLIGHT_LOOKUP flights))"
proof -
  from assms have "flights_loop A (determine_runway_config self flights) a
      (take MAX_FLIGHT_LOOKUP flights) \<lparr> cy_data = [], cy_trace = [] \<rparr> = Inr st"
    by (simp add: collect_def Let_def)
  from flights_loop_lookups[OF this] show ?thesis
    by (auto simp: min.commute)
qed

lemma collect_runways:
  assumes "collect A a s = (s1, Inr st)" and "fd \<in> set (cy_data st)"
  shows "fd_runway fd \<in> set (self_active_runways s1)"
proof (cases "get_flights a")
  case (Inl e)
  with assms show ?thesis by (simp add: collect_def)
next
  case (Inr flights)
  with assms(1) have s1: "s1 = determine_runway_config s flights"
    and l: "flights_loop A s1 a (take MAX_FLIGHT_LOOKUP flights) \<lparr>cy_data = [], cy_trace = []\<rparr> = Inr st"
    by (auto simp: collect_def Let_def)
  from flights_loop_data[OF l assms(2)] show ?thesis
    by (auto dest: attempt_runway)
qed

lemma collect_from_flight:
  assumes "get_flights a = Inr flights" and "snd (collect A a self) = Inr st"
    and "fd \<in> set (cy_data st)"
  shows "\<exists>f \<in> set (take MAX_FLIGHT_LOOKUP flights). from_flight f fd"
proof -
  from assms(1,2) have "flights_loop A (determine_runway_config self flights) a
      (take MAX_FLIGHT_LOOKUP flights) \<lparr> cy_data = [], cy_trace = [] \<rparr> = Inr st"
    by (simp add: collect_def Let_def)
  from flights_loop_data[OF this assms(3)] show ?thesis
    by (auto dest: attempt_from_flight)
qed

lemma grab_data_cases:
  "grab_data A a self =
     (case snd (collect A a (begin_cycle self)) of
        Inr st \<Rightarrow> Inr (complete_cycle (cy_data st) (fst (collect A a (begin_cycle self))))
      | Inl e \<Rightarrow> Inr (fail_cycle (fst (collect A a (begin_cycle self)))))"
proof -
  have "is_Exception e" for e by (cases e) simp_all
  then show ?thesis
    by (simp add: grab_data_def split: prod.splits sum.splits)
qed

lemma grab_data_runways:
  assumes "get_flights a = Inr flights" and "grab_data A a self = Inr s'"
  shows "self_active_runways s' = infer_runway_configuration flights"
  using assms
  by (auto simp: grab_data_cases collect_fst determine_runway_config_eq complete_cycle_def
      fail_cycle_def split: sum.splits)

text \<open>The cycles of the example providers.\<close>

lemma collect_one_landing:
  "collect binary64 one_landing (begin_cycle init) =
     (begin_cycle init,
      Inr \<lparr> cy_data = [landing_28L_data], cy_trace = [Lookup landing_28L] \<rparr>)"
proof -
  have c: "determine_runway_config (begin_cycle init) [landing_28L] = begin_cycle init"
    by (simp add: determine_runway_config_eq infer_runway_configuration_def in_east_band_def
        in_west_band_def landing_28L_fields begin_cycle_def init_def)
  have a: "self_active_runways (begin_cycle init) = [R28L, R28R]"
    by (simp add: begin_cycle_def init_def)
  show ?thesis
    by (simp add: collect_def api_fields c MAX_FLIGHT_LOOKUP_def retry_landing[OF a]
        del: retry_loop.simps)
qed

lemma collect_eleven:
  "collect A eleven init =
     (init\<lparr>self_active_runways := [R10L, R10R]\<rparr>,
      Inr \<lparr> cy_data = [],
            cy_trace = [Lookup no_position, Lookup no_position, Lookup no_position,
              Lookup no_position, Lookup no_position, Lookup no_position, Lookup no_position,
              Lookup no_position, Lookup no_position, Lookup no_position] \<rparr>)"
proof -
  have c: "determine_runway_config init eleven_flights = init\<lparr>self_active_runways := [R10L, R10R]\<rparr>"
    by (simp add: determine_runway_config_eq infer_runway_configuration_def in_east_band_def
        in_west_band_def eleven_flights_def no_position_fields eastbound_fields)
  have t: "take MAX_FLIGHT_LOOKUP eleven_flights =
      [no_position, no_position, no_position, no_position, no_position,
       no_position, no_position, no_position, no_position, no_position]"
    by (simp add: MAX_FLIGHT_LOOKUP_def eleven_flights_def)
  show ?thesis
    by (simp add: collect_def api_fields c t retry_no_position del: retry_loop.simps)
qed

lemma grab_one_landing:
  "grab_data binary64 one_landing init =
     Inr (init\<lparr>self_data := [landing_28L_data], self_new_data := True\<rparr>)"
proof -
  have "grab_data binary64 one_landing init =
      Inr (complete_cycle [landing_28L_data] (begin_cycle init))"
    by (simp only: grab_data_cases collect_one_landing snd_conv fst_conv sum.case
        cycle.select_convs)
  then show ?thesis by (simp add: complete_cycle_def begin_cycle_def init_def)
qed

text \<open>
  Claim C9. The runway configuration of a cycle is inferred from the whole list the provider
  returned; only then is the list cut to its first \<open>MAX_FLIGHT_LOOKUP = 10\<close> flights, and
  the detail lookups of a cycle that ends normally are those of these flights, in the
  provider's order, between one and \<open>RETRIES\<close> for each.
\<close>

theorem collect_truncation:
  "MAX_FLIGHT_LOOKUP = 10 \<and>
   (get_flights a = Inr flights \<longrightarrow>
      fst (collect A a self) = determine_runway_config self flights \<and>
      self_active_runways (fst (collect A a self)) = infer_runway_configuration flights \<and>
      snd (collect A a self) =
        flights_loop A (determine_runway_config self flights) a (take MAX_FLIGHT_LOOKUP flights)
          \<lparr> cy_data = [], cy_trace = [] \<rparr> \<and>
      (\<forall>st. snd (collect A a self) = Inr st \<longrightarrow>
         (\<exists>ks. length ks = min MAX_FLIGHT_LOOKUP (length flights) \<and>
               (\<forall>k \<in> set ks. 1 \<le> k \<and> k \<le> RETRIES) \<and>
               lookups (cy_trace st) =
                 concat (map2 replicate ks (take MAX_FLIGHT_LOOKUP flights)))) \<and>
      (\<forall>s'. grab_data A a self = Inr s' \<longrightarrow>
         self_active_runways s' = infer_runway_configuration flights))"
proof (intro conjI impI allI)
  show "MAX_FLIGHT_LOOKUP = 10" by (simp add: MAX_FLIGHT_LOOKUP_def)
next
  assume "get_flights a = Inr flights"
  then show "fst (collect A a self) = determine_runway_config self flights"
    by (simp add: collect_fst)
next
  assume "get_flights a = Inr flights"
  then show "self_active_runways (fst (collect A a self)) = infer_runway_configuration flights"
    by (simp add: collect_fst determine_runway_config_eq)
next
  assume "get_flights a = Inr flights"
  then show "snd (collect A a self) =
        flights_loop A (determine_runway_config self flights) a (take MAX_FLIGHT_LOOKUP flights)
          \<lparr> cy_data = [], cy_trace = [] \<rparr>"
    by (simp add: collect_def Let_def)
next
  fix st assume "get_flights a = Inr flights" "snd (collect A a self) = Inr st"
  then show "\<exists>ks. length ks = min MAX_FLIGHT_LOOKUP (length flights) \<and>
               (\<forall>k \<in> set ks. 1 \<le> k \<and> k \<le> RETRIES) \<and>
               lookups (cy_trace st) =
                 concat (map2 replicate ks (take MAX_FLIGHT_LOOKUP flights))"
    by (rule collect_lookups)
next
  fix s' assume "get_flights a = Inr flights" "grab_data A a self = Inr s'"
  then show "self_active_runways s' = infer_runway_configuration flights"
    by (rule grab_data_runways)
qed

theorem collect_truncation_witness:
  "self_active_runways (fst (collect binary64 eleven init)) = [R10L, R10R] \<and>
   infer_runway_configuration (take MAX_FLIGHT_LOOKUP eleven_flights) = [R28L, R28R] \<and>
   lookups (cy_trace (projr (snd (collect binary64 eleven init)))) =
     [no_position, no_position, no_position, no_position, no_position,
      no_position, no_position, no_position, no_position, no_position]"
proof -
  have g: "get_flights eleven = Inr eleven_flights" by (rule api_fields)
  have i: "infer_runway_configuration eleven_flights = [R10L, R10R]"
    by (simp add: infer_runway_configuration_def in_east_band_def in_west_band_def
        eleven_flights_def no_position_fields eastbound_fields)
  have t: "infer_runway_configuration (take MAX_FLIGHT_LOOKUP eleven_flights) = [R28L, R28R]"
    by (simp add: infer_runway_configuration_def in_east_band_def in_west_band_def
        MAX_FLIGHT_LOOKUP_def eleven_flights_def no_position_fields)
  have l: "lookups (cy_trace (projr (snd (collect binary64 eleven init)))) =
     [no_position, no_position, no_position, no_position, no_position,
      no_position, no_position, no_position, no_position, no_position]"
    by (simp only: collect_eleven snd_conv sum.sel cycle.select_convs lookups.simps)
  from collect_truncation[where A = binary64 and a = eleven and flights = eleven_flights
      and self = init] g
  have "self_active_runways (fst (collect binary64 eleven init)) =
      infer_runway_configuration eleven_flights"
    by blast
  with i t l show ?thesis
    by (simp only: simp_thms)
qed

lemma incomplete_never_recorded:
  "callsign f = None \<or> heading f = None \<Longrightarrow> attempt A self f response \<noteq> Inr (Some fd)"
  by (auto simp: from_flight_def dest!: attempt_from_flight)

lemma incomplete_attempt:
  assumes "determine_operation f = Some opn" and "determine_runway A self f = Inr (Some rw)"
    and "callsign f = None \<or> heading f = None"
  shows "attempt A self f (Inr d) = Inl AttributeError"
  using assms by (auto simp: attempt_Inl)

lemma incomplete_dropped:
  assumes "callsign f = None \<or> heading f = None"
    and "retry_loop A self a f n st = Inr st'"
  shows "cy_data st' = cy_data st"
  using retry_loop_data[OF assms(2)] incomplete_never_recorded[OF assms(1)] by blast

lemma incomplete_exhausts:
  assumes "determine_operation f = Some opn" and "determine_runway A self f = Inr (Some rw)"
    and "callsign f = None \<or> heading f = None"
    and "\<And>i. i < n \<Longrightarrow>
           get_flight_details a (length (lookups (cy_trace st)) + i) f \<noteq> Inl OtherException"
  shows "retry_loop A self a f n st = Inr (st\<lparr>cy_trace := cy_trace st @ failed_attempts f n\<rparr>)"
proof (rule retry_exhausted)
  fix i assume "i < n"
  from assms(4)[OF this] have
    "get_flight_details a (length (lookups (cy_trace st)) + i) f = Inl KeyError \<or>
     get_flight_details a (length (lookups (cy_trace st)) + i) f = Inl AttributeError \<or>
     (\<exists>d. get_flight_details a (length (lookups (cy_trace st)) + i) f = Inr d)"
    by (cases "get_flight_details a (length (lookups (cy_trace st)) + i) f")
       (auto intro: exn.exhaust)
  with assms(1-3) show "field_absence (nth_attempt A self a f st i)"
    unfolding nth_attempt_def field_absence_attempt by auto
qed

text \<open>
  Claim C10. A record that an attempt builds has the callsign, altitude, vertical speed and
  heading of its flight. For a flight whose operation and runway are determined but which
  lacks the callsign or the heading, building the record raises \<open>AttributeError\<close>, which is
  retried; the retry loop leaves the result as it was, and exhausts its retries unless a
  lookup raises another exception. So every record of a cycle's result comes from one of the
  first \<open>MAX_FLIGHT_LOOKUP\<close> flights that has all four fields.
\<close>

theorem records_from_complete_flights:
  "(attempt A self f response = Inr (Some fd) \<longrightarrow> from_flight f fd) \<and>
   (determine_operation f = Some opn \<and> determine_runway A self f = Inr (Some rw) \<and>
      (callsign f = None \<or> heading f = None) \<longrightarrow>
        attempt A self f (Inr d) = Inl AttributeError \<and>
        field_absence (attempt A self f (Inr d)) \<and>
        (retry_loop A self a f RETRIES st = Inr st' \<longrightarrow> cy_data st' = cy_data st) \<and>
        ((\<forall>i<RETRIES. get_flight_details a (length (lookups (cy_trace st)) + i) f
              \<noteq> Inl OtherException) \<longrightarrow>
           retry_loop A self a f RETRIES st =
             Inr (st\<lparr>cy_trace := cy_trace st @ failed_attempts f RETRIES\<rparr>))) \<and>
   (get_flights a = Inr flights \<and> snd (collect A a self) = Inr cy \<longrightarrow>
      (\<forall>r \<in> set (cy_data cy). \<exists>g \<in> set (take MAX_FLIGHT_LOOKUP flights). from_flight g r)) \<and>
   (get_flights a = Inr flights \<and> grab_data A a self = Inr s' \<and> new_data s' \<longrightarrow>
      (\<forall>r \<in> set (self_data s'). \<exists>g \<in> set (take MAX_FLIGHT_LOOKUP flights). from_flight g r))"
proof (intro conjI impI ballI)
  assume "attempt A self f response = Inr (Some fd)"
  then show "from_flight f fd" by (rule attempt_from_flight)
next
  assume h: "determine_operation f = Some opn \<and> determine_runway A self f = Inr (Some rw) \<and>
      (callsign f = None \<or> heading f = None)"
  then show e: "attempt A self f (Inr d) = Inl AttributeError"
    by (intro incomplete_attempt[where opn = opn and rw = rw]) auto
  then show "field_absence (attempt A self f (Inr d))" by (simp add: field_absence_def)
next
  assume h: "determine_operation f = Some opn \<and> determine_runway A self f = Inr (Some rw) \<and>
      (callsign f = None \<or> heading f = None)"
    and r: "retry_loop A self a f RETRIES st = Inr st'"
  from h have "callsign f = None \<or> heading f = None" by simp
  then show "cy_data st' = cy_data st" using r by (rule incomplete_dropped)
next
  assume h: "determine_operation f = Some opn \<and> determine_runway A self f = Inr (Some rw) \<and>
      (callsign f = None \<or> heading f = None)"
    and n: "\<forall>i<RETRIES. get_flight_details a (length (lookups (cy_trace st)) + i) f
              \<noteq> Inl OtherException"
  then show "retry_loop A self a f RETRIES st =
             Inr (st\<lparr>cy_trace := cy_trace st @ failed_attempts f RETRIES\<rparr>)"
    by (intro incomplete_exhausts[where opn = opn and rw = rw]) auto
next
  fix r assume "get_flights a = Inr flights \<and> snd (collect A a self) = Inr cy"
    and "r \<in> set (cy_data cy)"
  then show "\<exists>g \<in> set (take MAX_FLIGHT_LOOKUP flights). from_flight g r"
    by (intro collect_from_flight[where self = self and st = cy]) auto
next
  fix r assume h: "get_flights a = Inr flights \<and> grab_data A a self = Inr s' \<and> new_data s'"
    and m: "r \<in> set (self_data s')"
  show "\<exists>g \<in> set (take MAX_FLIGHT_LOOKUP flights). from_flight g r"
  proof (cases "snd (collect A a (begin_cycle self))")
    case (Inl e)
    with h have "\<not> new_data s'"
      by (auto simp: grab_data_cases fail_cycle_def new_data_def)
    with h show ?thesis by simp
  next
    case (Inr cy')
    with h have "s' = complete_cycle (cy_data cy') (fst (collect A a (begin_cycle self)))"
      by (auto simp: grab_data_cases)
    with m have "r \<in> set (cy_data cy')" by (simp add: complete_cycle_def)
    with h Inr show ?thesis
      by (intro collect_from_flight[where self = "begin_cycle self" and st = cy']) auto
  qed
qed

theorem records_from_complete_flights_witness:
  "attempt binary64 init no_callsign (Inr full_details) = Inl AttributeError \<and>
   retry_loop binary64 init one_landing no_callsign RETRIES \<lparr> cy_data = [], cy_trace = [] \<rparr> =
     Inr \<lparr> cy_data = [], cy_trace = failed_attempts no_callsign RETRIES \<rparr> \<and>
   from_flight landing_28L landing_28L_data"
proof -
  have i: "self_active_runways init = [R28L, R28R]" by (rule init_fields)
  have o: "determine_operation no_callsign = Some Landing"
    by (simp add: determine_operation_landing no_callsign_fields)
  have r: "determine_runway binary64 init no_callsign = Inr (Some R28L)"
    by (rule determine_runway_at_28L[OF i]) (rule no_callsign_fields)+
  have c: "callsign no_callsign = None \<or> heading no_callsign = None"
    by (simp add: no_callsign_fields)
  have n: "\<forall>i<RETRIES. get_flight_details one_landing
      (length (lookups (cy_trace \<lparr> cy_data = [], cy_trace = [] \<rparr>)) + i) no_callsign
        \<noteq> Inl OtherException" by (simp add: api_fields)
  have a: "attempt binary64 init landing_28L (Inr full_details) = Inr (Some landing_28L_data)"
    by (rule attempt_landing[OF i])
  from records_from_complete_flights[where A = binary64 and self = init and f = landing_28L
      and response = "Inr full_details" and fd = landing_28L_data]
  a have 1: "from_flight landing_28L landing_28L_data" by blast
  from records_from_complete_flights[where A = binary64 and self = init and f = no_callsign
      and opn = Landing and rw = R28L and d = full_details and a = one_landing
      and st = "\<lparr> cy_data = [], cy_trace = [] \<rparr>"]
    o r c n
  have 2: "attempt binary64 init no_callsign (Inr full_details) = Inl AttributeError \<and>
   retry_loop binary64 init one_landing no_callsign RETRIES \<lparr> cy_data = [], cy_trace = [] \<rparr> =
     Inr (\<lparr> cy_data = [], cy_trace = [] \<rparr>\<lparr>cy_trace :=
        cy_trace \<lparr> cy_data = [], cy_trace = [] \<rparr> @ failed_attempts no_callsign RETRIES\<rparr>)"
    by blast
  from 1 2 show ?thesis by simp
qed

section \<open>Properties of the tracker\<close>

text \<open>
  Claim C4. When an exception leaves the body of the cycle, \<open>_grab_data\<close> returns normally,
  the stored result is the one before the cycle, and the new-data and processing flags are
  false. When the provider query itself raises, nothing but the two flags is written.
  No exception ever leaves \<open>_grab_data\<close>.
\<close>

theorem grab_data_failure:
  "(snd (collect A a (begin_cycle self)) = Inl e \<longrightarrow>
      (\<exists>self'. grab_data A a self = Inr self' \<and> self_data self' = self_data self \<and>
               \<not> new_data self' \<and> \<not> processing self' \<and> fst (data self') = self_data self)) \<and>
   (get_flights a = Inl e \<longrightarrow>
      grab_data A a self = Inr (self\<lparr>self_new_data := False, self_processing := False\<rparr>)) \<and>
   (\<exists>self'. grab_data A a self = Inr self')"
proof (intro conjI impI)
  assume "snd (collect A a (begin_cycle self)) = Inl e"
  then have "grab_data A a self = Inr (fail_cycle (fst (collect A a (begin_cycle self))))"
    by (simp add: grab_data_cases)
  moreover have "self_data (fst (collect A a (begin_cycle self))) = self_data self"
    using collect_keeps[where self = "begin_cycle self"] by (simp add: begin_cycle_def)
  ultimately show "\<exists>self'. grab_data A a self = Inr self' \<and> self_data self' = self_data self \<and>
      \<not> new_data self' \<and> \<not> processing self' \<and> fst (data self') = self_data self"
    by (simp add: fail_cycle_def new_data_def processing_def data_def)
next
  assume "get_flights a = Inl e"
  then show "grab_data A a self = Inr (self\<lparr>self_new_data := False, self_processing := False\<rparr>)"
    by (simp add: grab_data_cases collect_def fail_cycle_def begin_cycle_def)
next
  show "\<exists>self'. grab_data A a self = Inr self'"
    by (simp add: grab_data_cases split: sum.splits)
qed

theorem grab_data_failure_witness:
  "grab_data binary64 unreachable_provider
     (init\<lparr>self_data := [landing_28L_data], self_new_data := True\<rparr>)
     = Inr (init\<lparr>self_data := [landing_28L_data]\<rparr>)"
  using grab_data_failure[where A = binary64 and a = unreachable_provider
      and self = "init\<lparr>self_data := [landing_28L_data], self_new_data := True\<rparr>"
      and e = OtherException]
  by (simp add: init_def api_fields)

text \<open>
  Claim C5. When the body of a cycle ends without an exception, the one locked step at
  its end stores the list the cycle accumulated, sets the new-data flag and clears the
  processing flag; an empty result is stored like any other.
\<close>

theorem grab_data_success:
  "(snd (collect A a (begin_cycle self)) = Inr st \<longrightarrow>
      (\<exists>self'. grab_data A a self = Inr self' \<and> self_data self' = cy_data st \<and>
               new_data self' \<and> \<not> processing self' \<and> fst (data self') = cy_data st)) \<and>
   (get_flights a = Inr [] \<longrightarrow>
      grab_data A a self = Inr (self\<lparr>self_data := [], self_new_data := True,
         self_processing := False, self_active_runways := [R28L, R28R]\<rparr>))"
proof (intro conjI impI)
  assume "snd (collect A a (begin_cycle self)) = Inr st"
  then have "grab_data A a self =
      Inr (complete_cycle (cy_data st) (fst (collect A a (begin_cycle self))))"
    by (simp add: grab_data_cases)
  then show "\<exists>self'. grab_data A a self = Inr self' \<and> self_data self' = cy_data st \<and>
               new_data self' \<and> \<not> processing self' \<and> fst (data self') = cy_data st"
    by (simp add: complete_cycle_def new_data_def processing_def data_def)
next
  assume "get_flights a = Inr []"
  then show "grab_data A a self = Inr (self\<lparr>self_data := [], self_new_data := True,
         self_processing := False, self_active_runways := [R28L, R28R]\<rparr>)"
    by (simp add: grab_data_cases collect_def complete_cycle_def begin_cycle_def
        determine_runway_config_def MAX_FLIGHT_LOOKUP_def)
qed

theorem grab_data_success_witness:
  "grab_data binary64 one_landing init =
     Inr (init\<lparr>self_data := [landing_28L_data], self_new_data := True\<rparr>) \<and>
   grab_data binary64 no_flights (init\<lparr>self_data := [landing_28L_data]\<rparr>) =
     Inr (init\<lparr>self_new_data := True\<rparr>)"
proof -
  have h: "snd (collect binary64 one_landing (begin_cycle init)) =
      Inr \<lparr> cy_data = [landing_28L_data], cy_trace = [Lookup landing_28L] \<rparr>"
    by (simp only: collect_one_landing snd_conv)
  have k: "fst (collect binary64 one_landing (begin_cycle init)) = begin_cycle init"
    by (simp only: collect_one_landing fst_conv)
  from grab_data_success[where A = binary64 and a = one_landing and self = init
      and st = "\<lparr> cy_data = [landing_28L_data], cy_trace = [Lookup landing_28L] \<rparr>"] h
  obtain s' where s': "grab_data binary64 one_landing init = Inr s'"
    by blast
  with h k have "s' = complete_cycle [landing_28L_data] (begin_cycle init)"
    by (simp add: grab_data_cases)
  with s' have 1: "grab_data binary64 one_landing init =
      Inr (init\<lparr>self_data := [landing_28L_data], self_new_data := True\<rparr>)"
    by (simp add: complete_cycle_def begin_cycle_def init_def)
  have 2: "grab_data binary64 no_flights (init\<lparr>self_data := [landing_28L_data]\<rparr>) =
      Inr (init\<lparr>self_new_data := True\<rparr>)"
    using grab_data_success[where A = binary64 and a = no_flights
        and self = "init\<lparr>self_data := [landing_28L_data]\<rparr>"]
    by (simp add: init_def api_fields)
  from 1 2 show ?thesis by (simp only: simp_thms)
qed

text \<open>
  Claim C6. Reading \<open>data\<close> returns the stored result and clears the new-data flag in
  one step; a second read returns the same records, and the flag is false after the first
  read and after the second.
\<close>

theorem data_read_twice:
  "fst (data self) = self_data self \<and>
   \<not> new_data (snd (data self)) \<and>
   fst (data (snd (data self))) = fst (data self) \<and>
   \<not> new_data (snd (data (snd (data self)))) \<and>
   snd (data (snd (data self))) = snd (data self) \<and>
   processing (snd (data self)) = processing self \<and>
   active_runways (snd (data self)) = active_runways self"
  by (simp add: data_def new_data_def processing_def active_runways_def)

text \<open>The active pair in the reachable states.\<close>

lemma reachable_pair:
  "reachable s \<Longrightarrow>
     self_active_runways s = [R28L, R28R] \<or> self_active_runways s = [R10L, R10R]"
proof (induction rule: reachable.induct)
  case r_init
  show ?case by (simp add: init_def)
next
  case (r_begin s)
  then show ?case by (simp add: begin_cycle_def)
next
  case (r_config s flights)
  show ?case by (simp add: determine_runway_config_eq infer_runway_configuration_def)
next
  case (r_complete s d)
  then show ?case by (simp add: complete_cycle_def)
next
  case (r_fail s)
  then show ?case by (simp add: fail_cycle_def)
next
  case (r_read s)
  then show ?case by (simp add: data_def)
qed

lemma reachable_collect: "reachable s \<Longrightarrow> reachable (fst (collect A a s))"
  by (auto simp: collect_fst split: sum.splits intro: reachable.intros)

lemma reachable_grab_data:
  "reachable s \<Longrightarrow> grab_data A a s = Inr s' \<Longrightarrow> reachable s'"
  by (auto simp: grab_data_cases split: sum.splits
      intro!: r_complete r_fail reachable_collect r_begin)

text \<open>
  Claim C7. The active pair is [28L, 28R] initially and, in every reachable state, either
  [28L, 28R] or [10L, 10R]; a cycle leads from a reachable state to a reachable state. Every
  record an attempt builds has its runway in the pair that was active when it was built, so
  every record of a cycle's result has its runway in the pair the cycle selected.
\<close>

theorem active_pair_invariant:
  "self_active_runways init = [R28L, R28R] \<and>
   (reachable s \<longrightarrow>
      (self_active_runways s = [R28L, R28R] \<or> self_active_runways s = [R10L, R10R]) \<and>
      (\<forall>a s'. grab_data A a s = Inr s' \<longrightarrow> reachable s')) \<and>
   (attempt A s f response = Inr (Some fd) \<longrightarrow> fd_runway fd \<in> set (self_active_runways s)) \<and>
   (collect A a s = (s1, Inr st) \<longrightarrow> (\<forall>fd \<in> set (cy_data st). fd_runway fd \<in> set (self_active_runways s1))) \<and>
   (grab_data A a s = Inr s' \<and> new_data s' \<longrightarrow>
      (\<forall>fd \<in> set (self_data s'). fd_runway fd \<in> set (self_active_runways s')))"
proof (intro conjI impI allI ballI)
  show "self_active_runways init = [R28L, R28R]" by (simp add: init_def)
next
  assume "reachable s"
  then show "self_active_runways s = [R28L, R28R] \<or> self_active_runways s = [R10L, R10R]"
    by (rule reachable_pair)
next
  fix a s' assume "reachable s" "grab_data A a s = Inr s'"
  then show "reachable s'" by (rule reachable_grab_data)
next
  assume "attempt A s f response = Inr (Some fd)"
  then show "fd_runway fd \<in> set (self_active_runways s)" by (rule attempt_runway)
next
  fix fd assume "collect A a s = (s1, Inr st)" "fd \<in> set (cy_data st)"
  then show "fd_runway fd \<in> set (self_active_runways s1)" by (rule collect_runways)
next
  fix fd assume g: "grab_data A a s = Inr s' \<and> new_data s'" and m: "fd \<in> set (self_data s')"
  obtain s1 r where c: "collect A a (begin_cycle s) = (s1, r)" by (cases "collect A a (begin_cycle s)")
  show "fd_runway fd \<in> set (self_active_runways s')"
  proof (cases r)
    case (Inl e)
    with g c show ?thesis by (auto simp: grab_data_cases fail_cycle_def new_data_def)
  next
    case (Inr st)
    with g c have s': "s' = complete_cycle (cy_data st) s1" by (simp add: grab_data_cases)
    with m have "fd \<in> set (cy_data st)" by (simp add: complete_cycle_def)
    with c Inr have "fd_runway fd \<in> set (self_active_runways s1)"
      by (auto dest: collect_runways)
    with s' show ?thesis by (simp add: complete_cycle_def)
  qed
qed

theorem active_pair_invariant_witness:
  "reachable (init\<lparr>self_data := [landing_28L_data], self_new_data := True\<rparr>) \<and>
   fd_runway landing_28L_data \<in> set (self_active_runways init)"
proof -
  have r: "reachable init" by (rule r_init)
  have g: "grab_data binary64 one_landing init =
      Inr (init\<lparr>self_data := [landing_28L_data], self_new_data := True\<rparr>)"
    by (rule grab_one_landing)
  have a: "attempt binary64 init landing_28L (Inr full_details) = Inr (Some landing_28L_data)"
    by (rule attempt_landing) (rule init_fields)
  from active_pair_invariant[where A = binary64 and s = init and f = landing_28L
      and response = "Inr full_details" and fd = landing_28L_data and a = one_landing
      and ?s1.0 = "begin_cycle init"
      and st = "\<lparr> cy_data = [landing_28L_data], cy_trace = [Lookup landing_28L] \<rparr>"
      and s' = "init\<lparr>self_data := [landing_28L_data], self_new_data := True\<rparr>"] r g a
  show ?thesis by (simp add: init_def)
qed

end
